theory Spec2Isabelle
  imports Complex_Main "HOL-Library.Product_Lexorder" "HOL-Library.Multiset"
begin

section \<open>Endpoint routing and failover for Aurora DSQL: a shallow embedding\<close>

text \<open>
  The development embeds the two connection managers of the repository,
  \<^verbatim>\<open>DSQLConnectionManager\<close> (file dsql_connection_manager.py) and
  \<^verbatim>\<open>DSQLHybridConnectionManager\<close> (file hybrid_failover_approach.py).

  Everything outside the Python process (sockets, the wall clock, Route 53, the
  token service, the database driver) is a family of oracles over an abstract
  world state \<open>'w\<close>; every oracle call takes the world and returns the next one,
  so two probes of one host may differ. Python floats are idealised as reals
  (no rounding), extended by the sentinel \<open>float('inf')\<close>. Logging is left out:
  it does not influence any result.
\<close>

subsection \<open>Latencies: a float or \<open>float('inf')\<close>\<close>

datatype latency = Fin real | Inf

instantiation latency :: linorder
begin

fun less_eq_latency :: "latency \<Rightarrow> latency \<Rightarrow> bool" where
  "less_eq_latency (Fin a) (Fin b) = (a \<le> b)"
| "less_eq_latency (Fin a) Inf = True"
| "less_eq_latency Inf (Fin b) = False"
| "less_eq_latency Inf Inf = True"

definition less_latency :: "latency \<Rightarrow> latency \<Rightarrow> bool" where
  "less_latency a b = (a \<le> b \<and> \<not> b \<le> a)"

instance
proof
  fix x y z :: latency
  show "(x < y) = (x \<le> y \<and> \<not> y \<le> x)"
    by (simp add: less_latency_def)
  show "x \<le> x"
    by (cases x) simp_all
  show "x \<le> y \<Longrightarrow> y \<le> z \<Longrightarrow> x \<le> z"
    by (cases x; cases y; cases z) simp_all
  show "x \<le> y \<Longrightarrow> y \<le> x \<Longrightarrow> x = y"
    by (cases x; cases y) simp_all
  show "x \<le> y \<or> y \<le> x"
    by (cases x; cases y) auto
qed

end

subsection \<open>Python values, exceptions, endpoints\<close>

text \<open>Values a connection parameter or a JSON setting may hold.\<close>

datatype pyval = VStr string | VInt int | VBool bool | VNone

text \<open>
  The exceptions the managers raise or let through, with the text that \<open>str(e)\<close>
  gives: a \<open>KeyError\<close> for a missing dictionary key, and the generic
  \<open>Exception\<close> with its message.
\<close>

datatype py_exn = KeyError string | Exception string

fun str_exn :: "py_exn \<Rightarrow> string" where
  "str_exn (KeyError k) = [CHR 0x27] @ k @ [CHR 0x27]"
| "str_exn (Exception m) = m"

text \<open>Failures of \<open>socket.connect\<close>; all of them are subclasses of \<open>Exception\<close>.\<close>

datatype sock_error = Gaierror | Timeout | ConnectionRefused | OtherError string

text \<open>
  An endpoint dictionary. \<open>hostname\<close> and \<open>region\<close> are always present; the
  other keys may be absent (\<open>None\<close>). \<open>latency\<close> and \<open>is_healthy\<close> are the two
  keys the managers write.
\<close>

record endpoint =
  hostname :: string
  port :: "int option"
  region :: string
  cluster_id :: "string option"
  priority :: "int option"
  health_check_id :: "string option"
  latency :: "latency option"
  is_healthy :: "bool option"

text \<open>One entry of \<open>HealthCheckObservations\<close>: the \<open>StatusReport.Status\<close> string, when present.\<close>

type_synonym observation = "string option"

text \<open>An open connection is identified by the parameters \<open>psycopg2.connect\<close> was given.\<close>

type_synonym conn_params = "string \<rightharpoonup> pyval"

datatype connection = Connection conn_params

subsection \<open>The outside world\<close>

text \<open>
  \<^item> \<open>clock\<close>: \<open>time.time()\<close>;
  \<^item> \<open>gethostbyname\<close>: the resolved address, or \<open>None\<close> for \<open>socket.gaierror\<close>;
  \<^item> \<open>sock_connect addr port timeout\<close>: create a socket, set the timeout, connect, close;
  \<^item> \<open>get_health_check_status id\<close>: the observation list of the Route 53 response
    (\<open>[]\<close> when the key is missing), or the message of the exception raised;
  \<^item> \<open>generate_token host region\<close>: the boto3 calls that mint a token, or the message
    of the exception raised;
  \<^item> \<open>pg_connect params\<close>: \<open>psycopg2.connect(**params)\<close>; \<open>None\<close> on success, the
    message of the exception otherwise.
\<close>

record 'w env =
  clock :: "'w \<Rightarrow> real \<times> 'w"
  gethostbyname :: "string \<Rightarrow> 'w \<Rightarrow> string option \<times> 'w"
  sock_connect :: "string \<Rightarrow> int \<Rightarrow> real \<Rightarrow> 'w \<Rightarrow> sock_error option \<times> 'w"
  get_health_check_status :: "string \<Rightarrow> 'w \<Rightarrow> (string + observation list) \<times> 'w"
  generate_token :: "string \<Rightarrow> string \<Rightarrow> 'w \<Rightarrow> (string + string) \<times> 'w"
  pg_connect :: "conn_params \<Rightarrow> 'w \<Rightarrow> string option \<times> 'w"

subsection \<open>\<open>DSQLConnectionManager\<close>\<close>

record manager =
  dm_endpoints :: "endpoint list"
  dm_connection_settings :: "(string \<times> pyval) list"

text \<open>
  \<open>_measure_endpoint\<close>: resolve, then time one connect with a timeout of 2 seconds.
  Every exception gives \<open>(float('inf'), False)\<close>.
\<close>

definition measure_endpoint ::
  "'w env \<Rightarrow> string \<Rightarrow> int \<Rightarrow> 'w \<Rightarrow> (latency \<times> bool) \<times> 'w" where
  "measure_endpoint E host p w =
     (case gethostbyname E host w of
        (None, w1) \<Rightarrow> ((Inf, False), w1)
      | (Some ip, w1) \<Rightarrow>
          (case clock E w1 of
             (start_time, w2) \<Rightarrow>
               (case sock_connect E ip p 2 w2 of
                  (Some err, w3) \<Rightarrow> ((Inf, False), w3)
                | (None, w3) \<Rightarrow>
                    (case clock E w3 of
                       (t, w4) \<Rightarrow> ((Fin ((t - start_time) * 1000), True), w4)))))"

text \<open>
  \<open>_check_endpoints\<close>: for every endpoint dictionary, in list order, measure and
  store \<open>latency\<close> and \<open>is_healthy\<close>. The dictionaries of the list are distinct
  objects, so the in-place updates are a map over the list.
\<close>

definition endpoint_port :: "endpoint \<Rightarrow> int" where
  "endpoint_port e = (case port e of Some p \<Rightarrow> p | None \<Rightarrow> 5432)"

fun check_endpoints :: "'w env \<Rightarrow> endpoint list \<Rightarrow> 'w \<Rightarrow> endpoint list \<times> 'w" where
  "check_endpoints E [] w = ([], w)"
| "check_endpoints E (e # es) w =
     (case measure_endpoint E (hostname e) (endpoint_port e) w of
        ((lat, ok), w1) \<Rightarrow>
          (case check_endpoints E es w1 of
             (es', w2) \<Rightarrow> (e\<lparr>latency := Some lat, is_healthy := Some ok\<rparr> # es', w2)))"

text \<open>The core parameters of one attempt, and the merge of the configured settings.\<close>

definition core_params ::
  "endpoint \<Rightarrow> string \<Rightarrow> string \<Rightarrow> string \<Rightarrow> int \<Rightarrow> conn_params" where
  "core_params e database user token connect_timeout =
     [''host'' \<mapsto> VStr (hostname e),
      ''port'' \<mapsto> VInt (endpoint_port e),
      ''database'' \<mapsto> VStr database,
      ''user'' \<mapsto> VStr user,
      ''password'' \<mapsto> VStr token,
      ''connect_timeout'' \<mapsto> VInt connect_timeout,
      ''sslmode'' \<mapsto> VStr ''require'']"

fun add_settings :: "(string \<times> pyval) list \<Rightarrow> conn_params \<Rightarrow> conn_params" where
  "add_settings [] cp = cp"
| "add_settings ((k, v) # kvs) cp =
     add_settings kvs
       (if cp k = None \<and> k \<noteq> ''connect_timeout'' then cp(k \<mapsto> v) else cp)"

text \<open>
  One pass of the \<open>try\<close> block: mint a token, build the parameters, connect.
  The result is the open connection or the exception caught.
\<close>

definition attempt ::
  "'w env \<Rightarrow> manager \<Rightarrow> string \<Rightarrow> string \<Rightarrow> int \<Rightarrow> endpoint \<Rightarrow> 'w \<Rightarrow>
     (py_exn + connection) \<times> 'w" where
  "attempt E m database user connect_timeout e w =
     (case generate_token E (hostname e) (region e) w of
        (Inl msg, w1) \<Rightarrow> (Inl (Exception msg), w1)
      | (Inr token, w1) \<Rightarrow>
          (let conn_params =
                 add_settings (dm_connection_settings m)
                   (core_params e database user token connect_timeout)
           in case pg_connect E conn_params w1 of
                (Some msg, w2) \<Rightarrow> (Inl (Exception msg), w2)
              | (None, w2) \<Rightarrow> (Inr (Connection conn_params), w2)))"

text \<open>The loop over \<open>target_endpoints\<close>, carrying \<open>last_exception\<close>.\<close>

fun try_endpoints ::
  "'w env \<Rightarrow> manager \<Rightarrow> string \<Rightarrow> string \<Rightarrow> int \<Rightarrow> endpoint list \<Rightarrow>
     py_exn option \<Rightarrow> 'w \<Rightarrow> (py_exn + connection) \<times> 'w" where
  "try_endpoints E m database user connect_timeout [] last_exception w =
     (Inl (Exception
        (''Failed to connect to any endpoint'' @
           (case last_exception of None \<Rightarrow> [] | Some e \<Rightarrow> '': '' @ str_exn e))), w)"
| "try_endpoints E m database user connect_timeout (e # es) last_exception w =
     (case attempt E m database user connect_timeout e w of
        (Inr conn, w1) \<Rightarrow> (Inr conn, w1)
      | (Inl ex, w1) \<Rightarrow> try_endpoints E m database user connect_timeout es (Some ex) w1)"

definition latency_key :: "endpoint \<Rightarrow> latency" where
  "latency_key e = (case latency e of Some l \<Rightarrow> l | None \<Rightarrow> Inf)"

definition healthy_flag :: "endpoint \<Rightarrow> bool" where
  "healthy_flag e = (case is_healthy e of Some b \<Rightarrow> b | None \<Rightarrow> False)"

definition target_endpoints :: "endpoint list \<Rightarrow> endpoint list" where
  "target_endpoints es =
     (let healthy_endpoints = filter healthy_flag es
      in if healthy_endpoints = [] then es else sort_key latency_key healthy_endpoints)"

definition get_connection ::
  "'w env \<Rightarrow> manager \<Rightarrow> string \<Rightarrow> string \<Rightarrow> int \<Rightarrow> 'w \<Rightarrow>
     (py_exn + connection) \<times> manager \<times> 'w" where
  "get_connection E m database user connect_timeout w =
     (case check_endpoints E (dm_endpoints m) w of
        (es, w1) \<Rightarrow>
          (let m1 = m\<lparr>dm_endpoints := es\<rparr>
           in case try_endpoints E m1 database user connect_timeout
                     (target_endpoints es) None w1 of
                (r, w2) \<Rightarrow> (r, m1, w2)))"

subsection \<open>\<open>DSQLHybridConnectionManager\<close>\<close>

record hybrid_manager =
  endpoints :: "endpoint list"
  connection_settings :: "(string \<times> pyval) list"
  health_check_ttl :: real
  latency_test_timeout :: real
  latency_test_retries :: int
  connection_timeout :: int
  health_check_cache :: "string \<rightharpoonup> (bool \<times> real)"
  dsql_available :: bool

text \<open>
  \<open>__init__\<close> with an in-memory endpoint list (no configuration file): the
  connection settings are the built-in defaults. An empty list raises \<open>ValueError\<close>
  (here \<open>None\<close>).
\<close>

definition default_connection_settings :: "int \<Rightarrow> (string \<times> pyval) list" where
  "default_connection_settings ct =
     [(''connect_timeout'', VInt ct),
      (''application_name'', VStr ''dsql-hybrid-router''),
      (''keepalives'', VInt 1),
      (''keepalives_idle'', VInt 30),
      (''keepalives_interval'', VInt 10),
      (''keepalives_count'', VInt 3)]"

definition init_with_endpoints ::
  "endpoint list \<Rightarrow> real \<Rightarrow> real \<Rightarrow> int \<Rightarrow> int \<Rightarrow> bool \<Rightarrow> hybrid_manager option" where
  "init_with_endpoints es ttl timeout retries ct avail =
     (if es = [] then None
      else Some \<lparr>endpoints = es,
                 connection_settings = default_connection_settings ct,
                 health_check_ttl = ttl,
                 latency_test_timeout = timeout,
                 latency_test_retries = retries,
                 connection_timeout = ct,
                 health_check_cache = Map.empty,
                 dsql_available = avail\<rparr>)"

text \<open>\<open>status.lower().startswith('success')\<close>, with \<open>''\<close> for a missing status.\<close>

definition lower_char :: "char \<Rightarrow> char" where
  "lower_char c =
     (case map_of (zip ''ABCDEFGHIJKLMNOPQRSTUVWXYZ'' ''abcdefghijklmnopqrstuvwxyz'') c of
        Some d \<Rightarrow> d
      | None \<Rightarrow> c)"

definition startswith :: "string \<Rightarrow> string \<Rightarrow> bool" where
  "startswith s p = (take (length p) s = p)"

definition status_is_success :: "observation \<Rightarrow> bool" where
  "status_is_success obs =
     startswith (map lower_char (case obs of Some s \<Rightarrow> s | None \<Rightarrow> [])) ''success''"

text \<open>
  \<open>check_route53_health\<close>. \<open>now\<close> is read once, on entry. A cached entry younger
  than the TTL answers the call. Otherwise Route 53 is asked: an exception and an
  empty observation list both return \<open>False\<close> and leave the cache as it was; a
  non-empty list is reduced to a boolean, which is cached under \<open>now\<close>.
\<close>

definition cache_lookup :: "hybrid_manager \<Rightarrow> string \<Rightarrow> real \<Rightarrow> bool option" where
  "cache_lookup m hc now =
     (case health_check_cache m hc of
        None \<Rightarrow> None
      | Some (cached_result, timestamp) \<Rightarrow>
          if now - timestamp < health_check_ttl m then Some cached_result else None)"

definition check_route53_health ::
  "'w env \<Rightarrow> hybrid_manager \<Rightarrow> string \<Rightarrow> 'w \<Rightarrow> bool \<times> hybrid_manager \<times> 'w" where
  "check_route53_health E m hc w =
     (case clock E w of
        (now, w1) \<Rightarrow>
        (case cache_lookup m hc now of
           Some cached_result \<Rightarrow> (cached_result, m, w1)
         | None \<Rightarrow>
             (case get_health_check_status E hc w1 of
                (Inl msg, w2) \<Rightarrow> (False, m, w2)
              | (Inr observations, w2) \<Rightarrow>
                  if observations = [] then (False, m, w2)
                  else
                    (let success_count = length (filter status_is_success observations);
                         healthy = (0 < success_count)
                     in (healthy,
                         m\<lparr>health_check_cache := (health_check_cache m)(hc \<mapsto> (healthy, now))\<rparr>,
                         w2)))))"

text \<open>\<open>check_direct_health\<close>: one connect; a missing \<open>port\<close> key is caught like any other exception.\<close>

definition check_direct_health :: "'w env \<Rightarrow> hybrid_manager \<Rightarrow> endpoint \<Rightarrow> 'w \<Rightarrow> bool \<times> 'w" where
  "check_direct_health E m e w =
     (case port e of
        None \<Rightarrow> (False, w)
      | Some p \<Rightarrow>
          (case sock_connect E (hostname e) p (latency_test_timeout m) w of
             (None, w1) \<Rightarrow> (True, w1)
           | (Some err, w1) \<Rightarrow> (False, w1)))"

definition is_endpoint_healthy ::
  "'w env \<Rightarrow> hybrid_manager \<Rightarrow> endpoint \<Rightarrow> 'w \<Rightarrow> bool \<times> hybrid_manager \<times> 'w" where
  "is_endpoint_healthy E m e w =
     (case health_check_id e of
        Some hc \<Rightarrow>
          if hc \<noteq> [] then check_route53_health E m hc w
          else (case check_direct_health E m e w of (b, w1) \<Rightarrow> (b, m, w1))
      | None \<Rightarrow> (case check_direct_health E m e w of (b, w1) \<Rightarrow> (b, m, w1)))"

text \<open>
  \<open>measure_latency\<close>: \<open>latency_test_retries\<close> timed connects; the failed ones are
  dropped, the others averaged. The \<open>port\<close> key is read outside the \<open>try\<close>, so a
  missing port raises \<open>KeyError\<close>.
\<close>

fun latency_loop ::
  "'w env \<Rightarrow> string \<Rightarrow> int \<Rightarrow> real \<Rightarrow> nat \<Rightarrow> real list \<Rightarrow> 'w \<Rightarrow> real list \<times> 'w" where
  "latency_loop E host p timeout 0 latencies w = (latencies, w)"
| "latency_loop E host p timeout (Suc n) latencies w =
     (case clock E w of
        (start_time, w1) \<Rightarrow>
          (case sock_connect E host p timeout w1 of
             (Some err, w2) \<Rightarrow> latency_loop E host p timeout n latencies w2
           | (None, w2) \<Rightarrow>
               (case clock E w2 of
                  (t, w3) \<Rightarrow>
                    latency_loop E host p timeout n (latencies @ [t - start_time]) w3)))"

definition average :: "real list \<Rightarrow> latency" where
  "average latencies =
     (if latencies \<noteq> [] then Fin (sum_list latencies / real (length latencies)) else Inf)"

definition measure_latency ::
  "'w env \<Rightarrow> hybrid_manager \<Rightarrow> endpoint \<Rightarrow> 'w \<Rightarrow> (py_exn + latency) \<times> 'w" where
  "measure_latency E m e w =
     (case port e of
        None \<Rightarrow> (Inl (KeyError ''port''), w)
      | Some p \<Rightarrow>
          (case latency_loop E (hostname e) p (latency_test_timeout m)
                  (nat (latency_test_retries m)) [] w of
             (latencies, w1) \<Rightarrow> (Inr (average latencies), w1)))"

text \<open>
  \<open>get_healthy_endpoints\<close>. The list it returns holds references to dictionaries of
  \<open>self.endpoints\<close>; a reference is modelled by the position in that list.
\<close>

fun healthy_loop ::
  "'w env \<Rightarrow> hybrid_manager \<Rightarrow> nat list \<Rightarrow> 'w \<Rightarrow> nat list \<times> hybrid_manager \<times> 'w" where
  "healthy_loop E m [] w = ([], m, w)"
| "healthy_loop E m (i # is) w =
     (case is_endpoint_healthy E m (endpoints m ! i) w of
        (ok, m1, w1) \<Rightarrow>
          (case healthy_loop E m1 is w1 of
             (hs, m2, w2) \<Rightarrow> ((if ok then i # hs else hs), m2, w2)))"

definition get_healthy_endpoints ::
  "'w env \<Rightarrow> hybrid_manager \<Rightarrow> 'w \<Rightarrow> nat list \<times> hybrid_manager \<times> 'w" where
  "get_healthy_endpoints E m w = healthy_loop E m [0..<length (endpoints m)] w"

text \<open>The loop \<open>endpoint['latency'] = self.measure_latency(endpoint)\<close>; a \<open>KeyError\<close> leaves it.\<close>

definition set_latency :: "hybrid_manager \<Rightarrow> nat \<Rightarrow> latency \<Rightarrow> hybrid_manager" where
  "set_latency m i l =
     m\<lparr>endpoints := (endpoints m)[i := (endpoints m ! i)\<lparr>latency := Some l\<rparr>]\<rparr>"

fun measure_all ::
  "'w env \<Rightarrow> hybrid_manager \<Rightarrow> nat list \<Rightarrow> 'w \<Rightarrow> py_exn option \<times> hybrid_manager \<times> 'w" where
  "measure_all E m [] w = (None, m, w)"
| "measure_all E m (i # is) w =
     (case measure_latency E m (endpoints m ! i) w of
        (Inl ex, w1) \<Rightarrow> (Some ex, m, w1)
      | (Inr l, w1) \<Rightarrow> measure_all E (set_latency m i l) is w1)"

text \<open>The sort key \<open>(x['latency'], x.get('priority', 999))\<close>, compared as Python compares tuples.\<close>

definition priority_key :: "endpoint \<Rightarrow> int" where
  "priority_key e = (case priority e of Some p \<Rightarrow> p | None \<Rightarrow> 999)"

definition rank_key :: "endpoint \<Rightarrow> latency \<times> int" where
  "rank_key e = (latency_key e, priority_key e)"

definition rank :: "hybrid_manager \<Rightarrow> nat list \<Rightarrow> nat list" where
  "rank m healthy = sort_key (\<lambda>i. rank_key (endpoints m ! i)) healthy"

text \<open>\<open>generate_auth_token\<close> and one pass of the \<open>try\<close> block of \<open>get_connection\<close>.\<close>

definition generate_auth_token ::
  "'w env \<Rightarrow> hybrid_manager \<Rightarrow> string \<Rightarrow> string \<Rightarrow> 'w \<Rightarrow> (py_exn + string) \<times> 'w" where
  "generate_auth_token E m cid reg w =
     (if dsql_available m then
        (case generate_token E (cid @ ''.dsql.'' @ reg @ ''.on.aws'') reg w of
           (Inl msg, w1) \<Rightarrow> (Inl (Exception msg), w1)
         | (Inr token, w1) \<Rightarrow> (Inr token, w1))
      else (Inr (''test-auth-token-'' @ cid @ ''-'' @ reg), w))"

definition hybrid_core_params ::
  "endpoint \<Rightarrow> int \<Rightarrow> string \<Rightarrow> string \<Rightarrow> string \<Rightarrow> conn_params" where
  "hybrid_core_params e p database username auth_token =
     [''host'' \<mapsto> VStr (hostname e),
      ''port'' \<mapsto> VInt p,
      ''database'' \<mapsto> VStr database,
      ''user'' \<mapsto> VStr username,
      ''password'' \<mapsto> VStr auth_token]"

fun dict_update :: "(string \<times> pyval) list \<Rightarrow> conn_params \<Rightarrow> conn_params" where
  "dict_update [] cp = cp"
| "dict_update ((k, v) # kvs) cp = dict_update kvs (cp(k \<mapsto> v))"

definition hybrid_conn_params ::
  "hybrid_manager \<Rightarrow> endpoint \<Rightarrow> int \<Rightarrow> string \<Rightarrow> string \<Rightarrow> string \<Rightarrow> conn_params" where
  "hybrid_conn_params m e p database username auth_token =
     dict_update (connection_settings m) (hybrid_core_params e p database username auth_token)"

definition hybrid_attempt ::
  "'w env \<Rightarrow> hybrid_manager \<Rightarrow> string \<Rightarrow> string \<Rightarrow> endpoint \<Rightarrow> 'w \<Rightarrow>
     (py_exn + connection) \<times> 'w" where
  "hybrid_attempt E m database username e w =
     (case cluster_id e of
        None \<Rightarrow> (Inl (KeyError ''cluster_id''), w)
      | Some cid \<Rightarrow>
          (case generate_auth_token E m cid (region e) w of
             (Inl ex, w1) \<Rightarrow> (Inl ex, w1)
           | (Inr auth_token, w1) \<Rightarrow>
               (case port e of
                  None \<Rightarrow> (Inl (KeyError ''port''), w1)
                | Some p \<Rightarrow>
                    (let conn_params = hybrid_conn_params m e p database username auth_token
                     in case pg_connect E conn_params w1 of
                          (Some msg, w2) \<Rightarrow> (Inl (Exception msg), w2)
                        | (None, w2) \<Rightarrow> (Inr (Connection conn_params), w2)))))"

text \<open>\<open>"\n".join(errors)\<close> and the loop that fills \<open>errors\<close>.\<close>

fun join :: "string \<Rightarrow> string list \<Rightarrow> string" where
  "join sep [] = []"
| "join sep [x] = x"
| "join sep (x # y # ys) = x @ sep @ join sep (y # ys)"

definition error_msg :: "endpoint \<Rightarrow> py_exn \<Rightarrow> string" where
  "error_msg e ex = ''Failed to connect to '' @ hostname e @ '': '' @ str_exn ex"

fun hybrid_try ::
  "'w env \<Rightarrow> hybrid_manager \<Rightarrow> string \<Rightarrow> string \<Rightarrow> endpoint list \<Rightarrow> string list \<Rightarrow> 'w \<Rightarrow>
     (py_exn + connection) \<times> 'w" where
  "hybrid_try E m database username [] errors w =
     (Inl (Exception
        (''Failed to connect to any DSQL endpoint:'' @ [CHR 0x0A] @ join [CHR 0x0A] errors)), w)"
| "hybrid_try E m database username (e # es) errors w =
     (case hybrid_attempt E m database username e w of
        (Inr conn, w1) \<Rightarrow> (Inr conn, w1)
      | (Inl ex, w1) \<Rightarrow>
          hybrid_try E m database username es (errors @ [error_msg e ex]) w1)"

definition hybrid_get_connection ::
  "'w env \<Rightarrow> hybrid_manager \<Rightarrow> string \<Rightarrow> string \<Rightarrow> 'w \<Rightarrow>
     (py_exn + connection) \<times> hybrid_manager \<times> 'w" where
  "hybrid_get_connection E m database username w =
     (case get_healthy_endpoints E m w of
        (healthy_endpoints, m1, w1) \<Rightarrow>
          if healthy_endpoints = [] then
            (Inl (Exception ''No healthy DSQL endpoints available''), m1, w1)
          else
            (case measure_all E m1 healthy_endpoints w1 of
               (Some ex, m2, w2) \<Rightarrow> (Inl ex, m2, w2)
             | (None, m2, w2) \<Rightarrow>
                 (case hybrid_try E m2 database username
                         (map (\<lambda>i. endpoints m2 ! i) (rank m2 healthy_endpoints)) [] w2 of
                    (r, w3) \<Rightarrow> (r, m2, w3))))"

subsection \<open>Vocabulary of the properties\<close>

text \<open>
  The outcomes of \<open>n\<close> successive timed connects to one address, starting in world
  \<open>w\<close>: \<open>Some d\<close> for a connect that took \<open>d\<close>, \<open>None\<close> for one that raised.
\<close>

fun probe_results ::
  "'w env \<Rightarrow> string \<Rightarrow> int \<Rightarrow> real \<Rightarrow> nat \<Rightarrow> 'w \<Rightarrow> real option list" where
  "probe_results E host p timeout 0 w = []"
| "probe_results E host p timeout (Suc n) w =
     (case clock E w of
        (t0, w1) \<Rightarrow>
          (case sock_connect E host p timeout w1 of
             (Some err, w2) \<Rightarrow> None # probe_results E host p timeout n w2
           | (None, w2) \<Rightarrow>
               (case clock E w2 of
                  (t1, w3) \<Rightarrow> Some (t1 - t0) # probe_results E host p timeout n w3)))"

definition successes :: "real option list \<Rightarrow> real list" where
  "successes rs = concat (map (\<lambda>r. case r of Some d \<Rightarrow> [d] | None \<Rightarrow> []) rs)"

text \<open>\<open>precedes xs a b\<close>: \<open>b\<close> occurs in \<open>xs\<close> after the first occurrence of \<open>a\<close>.\<close>

fun precedes :: "'a list \<Rightarrow> 'a \<Rightarrow> 'a \<Rightarrow> bool" where
  "precedes [] a b = False"
| "precedes (x # xs) a b = (if x = a then b \<in> set xs else precedes xs a b)"

subsection \<open>Scripted worlds for the examples\<close>

text \<open>
  The world is the current time. Reading the clock does not advance it. A connect
  to \<open>a\<close> at time \<open>w\<close> with timeout \<open>t\<close> succeeds after \<open>d\<close> when \<open>net a w = Some d\<close>
  and \<open>d < t\<close>, times out after \<open>t\<close> when \<open>d\<close> is not below \<open>t\<close>, and is refused
  when \<open>net a w = None\<close>. Route 53, the token service and the database answer by
  table.
\<close>

definition sim_env ::
  "(string \<Rightarrow> real \<Rightarrow> real option) \<Rightarrow> (string \<Rightarrow> string + observation list) \<Rightarrow>
   (string \<Rightarrow> string + string) \<Rightarrow> (conn_params \<Rightarrow> string option) \<Rightarrow> real env" where
  "sim_env net hc mint db =
     \<lparr>clock = (\<lambda>w. (w, w)),
      gethostbyname = (\<lambda>h w. (Some h, w)),
      sock_connect = (\<lambda>a p t w. case net a w of
                                     Some d \<Rightarrow> if d < t then (None, w + d)
                                               else (Some Timeout, w + t)
                                   | None \<Rightarrow> (Some ConnectionRefused, w)),
      get_health_check_status = (\<lambda>i w. (hc i, w)),
      generate_token = (\<lambda>h r w. (mint h, w)),
      pg_connect = (\<lambda>cp w. (db cp, w))\<rparr>"

definition mk_endpoint :: "string \<Rightarrow> int option \<Rightarrow> string option \<Rightarrow> endpoint" where
  "mk_endpoint h pr hc =
     \<lparr>hostname = h, port = Some 5432, region = ''us-east-1'', cluster_id = Some h,
      priority = pr, health_check_id = hc, latency = None, is_healthy = None\<rparr>"

definition mk_hybrid :: "endpoint list \<Rightarrow> (string \<times> pyval) list \<Rightarrow> hybrid_manager" where
  "mk_hybrid es cs =
     \<lparr>endpoints = es, connection_settings = cs, health_check_ttl = 60,
      latency_test_timeout = 2, latency_test_retries = 3, connection_timeout = 5,
      health_check_cache = Map.empty, dsql_available = True\<rparr>"

definition override_settings :: "(string \<times> pyval) list" where
  "override_settings = [(''host'', VStr ''elsewhere''), (''sslmode'', VStr ''disable'')]"

definition flaky_net :: "string \<Rightarrow> real \<Rightarrow> real option" where
  "flaky_net h w = (if w < 1 then Some 1 else if w < 2 then Some 3 else Some (1 / 2))"

definition flaky_env :: "real env" where
  "flaky_env = sim_env flaky_net (\<lambda>i. Inr []) (\<lambda>h. Inr ''token'') (\<lambda>cp. None)"

definition r53_env :: "observation list \<Rightarrow> real env" where
  "r53_env obs = sim_env (\<lambda>h w. Some 1) (\<lambda>i. Inr obs) (\<lambda>h. Inr ''token'') (\<lambda>cp. None)"

definition open_env :: "real env" where
  "open_env = sim_env (\<lambda>h w. Some 1) (\<lambda>i. Inr []) (\<lambda>h. Inr ''token'') (\<lambda>cp. None)"

definition measured :: "string \<Rightarrow> int option \<Rightarrow> real \<Rightarrow> endpoint" where
  "measured h pr l = (mk_endpoint h pr None)\<lparr>latency := Some (Fin l)\<rparr>"

definition tied_manager :: hybrid_manager where
  "tied_manager =
     mk_hybrid [measured ''a'' None 1, measured ''b'' (Some 1000) 1, measured ''c'' (Some 2) 1] []"

definition two_endpoints :: "endpoint list" where
  "two_endpoints = [mk_endpoint ''a'' (Some 2) None, mk_endpoint ''b'' (Some 1) None]"

definition two_manager :: manager where
  "two_manager = \<lparr>dm_endpoints = two_endpoints, dm_connection_settings = []\<rparr>"

definition two_hybrid :: hybrid_manager where
  "two_hybrid = mk_hybrid two_endpoints []"

definition refuse_db :: "conn_params \<Rightarrow> string option" where
  "refuse_db cp = Some (''refused by '' @ (case cp ''host'' of Some (VStr h) \<Rightarrow> h | _ \<Rightarrow> []))"

definition refusing_env :: "real env" where
  "refusing_env = sim_env (\<lambda>h w. Some 1) (\<lambda>i. Inr []) (\<lambda>h. Inr ''token'') refuse_db"

definition closed_env :: "real env" where
  "closed_env = sim_env (\<lambda>h w. None) (\<lambda>i. Inr []) (\<lambda>h. Inr ''token'') (\<lambda>cp. None)"

definition warming_net :: "string \<Rightarrow> real \<Rightarrow> real option" where
  "warming_net h w = (if h = ''a'' then (if w < 1 then Some (8 / 5) else Some (1 / 10)) else Some 1)"

definition warming_env :: "real env" where
  "warming_env = sim_env warming_net (\<lambda>i. Inr []) (\<lambda>h. Inr ''token'') (\<lambda>cp. None)"

definition half_env :: "real env" where
  "half_env = sim_env (\<lambda>h w. if h = ''a'' then Some 1 else None) (\<lambda>i. Inr [])
                (\<lambda>h. Inr ''token'') (\<lambda>cp. None)"

definition checked_hybrid :: hybrid_manager where
  "checked_hybrid = mk_hybrid [mk_endpoint ''a'' None (Some ''hc-a'')] []"

definition override_hybrid :: hybrid_manager where
  "override_hybrid = mk_hybrid [mk_endpoint ''a'' None None] override_settings"

definition override_manager :: manager where
  "override_manager =
     \<lparr>dm_endpoints = [mk_endpoint ''a'' None None], dm_connection_settings = override_settings\<rparr>"

section \<open>Properties\<close>

lemmas fixture_defs = two_endpoints_def two_manager_def two_hybrid_def refuse_db_def refusing_env_def
  closed_env_def warming_net_def warming_env_def half_env_def checked_hybrid_def
  open_env_def r53_env_def sim_env_def mk_endpoint_def mk_hybrid_def

lemmas simple_defs = get_connection_def measure_endpoint_def endpoint_port_def target_endpoints_def
  healthy_flag_def latency_key_def attempt_def core_params_def

lemmas hybrid_defs = hybrid_get_connection_def get_healthy_endpoints_def is_endpoint_healthy_def
  check_direct_health_def check_route53_health_def cache_lookup_def measure_latency_def
  numeral_3_eq_3 average_def set_latency_def rank_def rank_key_def priority_key_def latency_key_def
  hybrid_attempt_def generate_auth_token_def hybrid_conn_params_def hybrid_core_params_def
  status_is_success_def startswith_def lower_char_def less_latency_def error_msg_def

subsection \<open>Connection parameters\<close>

lemma dict_update_map_add: "dict_update kvs cp = cp ++ map_of (rev kvs)"
  by (induction kvs arbitrary: cp) (auto simp: map_add_def fun_eq_iff split: option.splits)

lemma dict_update_in:
  "distinct (map fst kvs) \<Longrightarrow> (k, v) \<in> set kvs \<Longrightarrow> dict_update kvs cp k = Some v"
  by (simp add: dict_update_map_add map_add_def rev_map[symmetric])

lemma add_settings_keep: "cp k \<noteq> None \<Longrightarrow> add_settings kvs cp k = cp k"
  by (induction kvs arbitrary: cp) auto

lemma core_params_dom:
  "dom (core_params e d u t ct) =
     {''host'', ''port'', ''database'', ''user'', ''password'', ''connect_timeout'', ''sslmode''}"
  by (auto simp: core_params_def split: if_splits)

subsection \<open>Latency measurement\<close>

lemma latency_loop_results:
  "fst (latency_loop E host p timeout n acc w) = acc @ successes (probe_results E host p timeout n w)"
  by (induction n arbitrary: acc w) (auto simp: successes_def split: prod.splits option.splits)

lemma measure_latency_mean:
  "port e = Some p \<Longrightarrow>
     fst (measure_latency E m e w) =
       Inr (average (successes (probe_results E (hostname e) p (latency_test_timeout m)
                        (nat (latency_test_retries m)) w)))"
  using latency_loop_results [of E "hostname e" p "latency_test_timeout m"
      "nat (latency_test_retries m)" "[]" w]
  by (auto simp: measure_latency_def split: prod.splits)

lemma measure_endpoint_single:
  "fst (measure_endpoint E host q w) =
     (case gethostbyname E host w of
        (None, w1) \<Rightarrow> (Inf, False)
      | (Some ip, w1) \<Rightarrow>
          (let ok = successes (probe_results E ip q 2 (Suc 0) w1)
           in if ok \<noteq> [] then (Fin (sum_list ok / real (length ok) * 1000), True)
              else (Inf, False)))"
  by (simp add: measure_endpoint_def successes_def split: prod.splits option.splits)

text \<open>
  Claim C8. \<open>measure_latency\<close> (an endpoint with a port, any timeout and retry
  count) returns the arithmetic mean of the connects that succeeded, and
  \<open>float('inf')\<close> when none did; a failed connect never makes it raise. It returns
  the latency alone: the flag \<open>ok\<close> of the claim is whether the result is finite.
  \<open>_measure_endpoint\<close> makes one attempt after resolving the name: it returns that
  attempt's time (the mean of one value, in milliseconds) with \<open>True\<close>, and
  \<open>(float('inf'), False)\<close> when resolution or the connect fails.
\<close>

theorem latency_measurement:
  "(port e = Some p \<longrightarrow>
      fst (measure_latency E m e w) =
        Inr (let ok = successes (probe_results E (hostname e) p (latency_test_timeout m)
                         (nat (latency_test_retries m)) w)
             in if ok \<noteq> [] then Fin (sum_list ok / real (length ok)) else Inf)) \<and>
   fst (measure_endpoint E host q w) =
     (case gethostbyname E host w of
        (None, w1) \<Rightarrow> (Inf, False)
      | (Some ip, w1) \<Rightarrow>
          (let ok = successes (probe_results E ip q 2 (Suc 0) w1)
           in if ok \<noteq> [] then (Fin (sum_list ok / real (length ok) * 1000), True)
              else (Inf, False)))"
  using measure_latency_mean [of e p E m w] measure_endpoint_single [of E host q w]
  by (simp add: average_def Let_def)

theorem latency_measurement_witness:
  "port (mk_endpoint ''a'' None None) = Some 5432 \<and>
   fst (measure_latency flaky_env (mk_hybrid [] []) (mk_endpoint ''a'' None None) 0) =
     Inr (Fin (3 / 4)) \<and>
   fst (measure_endpoint flaky_env ''a'' 5432 0) = (Fin 1000, True) \<and>
   fst (measure_endpoint flaky_env ''a'' 5432 1) = (Inf, False)"
  using latency_measurement [of "mk_endpoint ''a'' None None" 5432 flaky_env "mk_hybrid [] []" 0 "''a''" 5432]
    latency_measurement [of "mk_endpoint ''a'' None None" 5432 flaky_env "mk_hybrid [] []" 1 "''a''" 5432]
  by (simp add: mk_endpoint_def mk_hybrid_def flaky_env_def sim_env_def flaky_net_def successes_def
      numeral_3_eq_3)

subsection \<open>The Route 53 cache\<close>

text \<open>
  Claim C5, as amended. On a cache miss (no entry, or one as old as the TTL):
  when Route 53 returns a non-empty observation list, the boolean "some
  observation starts with success" is returned and stored under the time read on
  entry; when it returns an empty list or raises, the result is \<open>False\<close> and the
  cache is left as it was.
\<close>

theorem route53_cache_write:
  assumes "clock E w = (now, w1)"
    and "cache_lookup m hc now = None"
    and "get_health_check_status E hc w1 = (r, w2)"
  shows "check_route53_health E m hc w =
     (case r of
        Inl msg \<Rightarrow> (False, m, w2)
      | Inr obs \<Rightarrow>
          if obs = [] then (False, m, w2)
          else ((\<exists>ob\<in>set obs. status_is_success ob),
                m\<lparr>health_check_cache :=
                    (health_check_cache m)(hc \<mapsto> ((\<exists>ob\<in>set obs. status_is_success ob), now))\<rparr>,
                w2))"
  using assms
  by (auto simp: check_route53_health_def filter_empty_conv Let_def split: sum.splits)

theorem route53_cache_write_witness:
  "clock (r53_env [Some ''Failure: timeout'', Some ''Success: HTTP 200'']) 7 = (7, 7) \<and>
   cache_lookup (mk_hybrid [] []) ''hc-1'' 7 = None \<and>
   (case check_route53_health (r53_env [Some ''Failure: timeout'', Some ''Success: HTTP 200''])
           (mk_hybrid [] []) ''hc-1'' 7 of
      (b, m', w') \<Rightarrow> b \<and> health_check_cache m' ''hc-1'' = Some (True, 7))"
proof -
  let ?E = "r53_env [Some ''Failure: timeout'', Some ''Success: HTTP 200'']"
  have c: "clock ?E 7 = (7, 7)"
    by (simp add: r53_env_def sim_env_def)
  have l: "cache_lookup (mk_hybrid [] []) ''hc-1'' 7 = None"
    by (simp add: cache_lookup_def mk_hybrid_def)
  have g: "get_health_check_status ?E ''hc-1'' 7 =
             (Inr [Some ''Failure: timeout'', Some ''Success: HTTP 200''], 7)"
    by (simp add: r53_env_def sim_env_def)
  show ?thesis
    using c l route53_cache_write [OF c l g]
    by (simp add: status_is_success_def startswith_def lower_char_def)
qed

text \<open>
  The claim as first stated fails on an empty observation list: the call to Route 53
  returns, the answer is \<open>False\<close>, and the cache still has no entry.
\<close>

theorem route53_empty_observations_counterexample:
  "get_health_check_status (r53_env []) ''hc-1'' 7 = (Inr [], 7) \<and>
   check_route53_health (r53_env []) (mk_hybrid [] []) ''hc-1'' 7 = (False, mk_hybrid [] [], 7) \<and>
   health_check_cache (mk_hybrid [] []) ''hc-1'' = None"
  by (simp add: check_route53_health_def r53_env_def sim_env_def cache_lookup_def mk_hybrid_def)

subsection \<open>TLS\<close>

lemma simple_sslmode_require:
  "add_settings kvs (core_params e d u t ct) ''sslmode'' = Some (VStr ''require'')"
  by (simp add: add_settings_keep core_params_def)

text \<open>
  Claim C4. \<open>DSQLConnectionManager\<close> passes \<open>sslmode = 'require'\<close> on every attempt
  (lemma \<open>simple_sslmode_require\<close>). The hybrid manager does not: built from an
  endpoint list, with its default settings, it opens its connection with no
  \<open>sslmode\<close> parameter at all.
\<close>

theorem hybrid_sslmode_absent:
  "(case init_with_endpoints [mk_endpoint ''a'' None None] 60 2 3 5 True of
      None \<Rightarrow> False
    | Some m \<Rightarrow>
        (case hybrid_get_connection open_env m ''postgres'' ''admin'' 0 of
           (Inr (Connection cp), m', w') \<Rightarrow>
             cp ''host'' = Some (VStr ''a'') \<and> cp ''sslmode'' = None
         | (Inl ex, m', w') \<Rightarrow> False))"
  by (simp add: init_with_endpoints_def default_connection_settings_def mk_endpoint_def
      hybrid_get_connection_def get_healthy_endpoints_def is_endpoint_healthy_def
      check_direct_health_def open_env_def sim_env_def measure_latency_def numeral_3_eq_3
      average_def set_latency_def rank_def hybrid_attempt_def generate_auth_token_def
      hybrid_conn_params_def hybrid_core_params_def)

subsection \<open>Ranking\<close>

lemma sorted_precedes:
  "sorted (map f xs) \<Longrightarrow> a \<in> set xs \<Longrightarrow> b \<in> set xs \<Longrightarrow> f a < f b \<Longrightarrow> precedes xs a b"
proof (induction xs)
  case Nil
  then show ?case by simp
next
  case (Cons x xs)
  show ?case
  proof (cases "x = a")
    case True
    with Cons.prems show ?thesis by auto
  next
    case False
    with Cons.prems have a: "a \<in> set xs" by simp
    have "b \<noteq> x"
    proof
      assume "b = x"
      with Cons.prems(1) a have "f b \<le> f a" by auto
      with Cons.prems(4) show False by simp
    qed
    with Cons.prems have "b \<in> set xs" by simp
    with Cons a False show ?thesis by simp
  qed
qed

text \<open>
  Claim C7, as amended. The hybrid manager ranks ascending by
  \<open>(latency, priority)\<close> with a missing priority counted as 999; the ranked list is
  a permutation of the candidates and the sort is stable (candidates with the same
  key keep their input order). So among endpoints of equal latency one without a
  priority comes after every endpoint that declares a priority below 999.
  \<open>DSQLConnectionManager\<close> ranks its healthy endpoints by latency alone:
  endpoints of equal latency keep their input order, whatever their priorities.
\<close>

theorem ranking_order:
  "sorted (map (\<lambda>i. rank_key (endpoints m ! i)) (rank m hs)) \<and>
   mset (rank m hs) = mset hs \<and>
   (\<forall>k. filter (\<lambda>i. rank_key (endpoints m ! i) = k) (rank m hs) =
        filter (\<lambda>i. rank_key (endpoints m ! i) = k) hs) \<and>
   (\<forall>i\<in>set hs. \<forall>j\<in>set hs.
      latency_key (endpoints m ! i) = latency_key (endpoints m ! j) \<and>
      (\<exists>p. priority (endpoints m ! i) = Some p \<and> p < 999) \<and>
      priority (endpoints m ! j) = None \<longrightarrow> precedes (rank m hs) i j) \<and>
   (filter healthy_flag es \<noteq> [] \<longrightarrow>
      sorted (map latency_key (target_endpoints es)) \<and>
      (\<forall>l. filter (\<lambda>e. latency_key e = l) (target_endpoints es) =
           filter (\<lambda>e. latency_key e = l) (filter healthy_flag es)))"
proof (intro conjI ballI impI allI)
  show "sorted (map (\<lambda>i. rank_key (endpoints m ! i)) (rank m hs))"
    by (simp add: rank_def)
  show "mset (rank m hs) = mset hs"
    by (simp add: rank_def)
next
  fix k
  show "filter (\<lambda>i. rank_key (endpoints m ! i) = k) (rank m hs) =
        filter (\<lambda>i. rank_key (endpoints m ! i) = k) hs"
    by (simp add: rank_def sort_key_stable)
next
  fix i j
  assume i: "i \<in> set hs" and j: "j \<in> set hs"
    and h: "latency_key (endpoints m ! i) = latency_key (endpoints m ! j) \<and>
      (\<exists>p. priority (endpoints m ! i) = Some p \<and> p < 999) \<and>
      priority (endpoints m ! j) = None"
  from h have "rank_key (endpoints m ! i) < rank_key (endpoints m ! j)"
    by (auto simp: rank_key_def priority_key_def)
  moreover have "sorted (map (\<lambda>i. rank_key (endpoints m ! i)) (rank m hs))"
    by (simp add: rank_def)
  moreover have "i \<in> set (rank m hs)" "j \<in> set (rank m hs)"
    using i j by (simp_all add: rank_def)
  ultimately show "precedes (rank m hs) i j"
    using sorted_precedes [of "\<lambda>i. rank_key (endpoints m ! i)" "rank m hs" i j] by blast
next
  assume "filter healthy_flag es \<noteq> []"
  then show "sorted (map latency_key (target_endpoints es))"
    by (simp add: target_endpoints_def)
next
  fix l
  assume "filter healthy_flag es \<noteq> []"
  then show "filter (\<lambda>e. latency_key e = l) (target_endpoints es) =
           filter (\<lambda>e. latency_key e = l) (filter healthy_flag es)"
    by (simp add: target_endpoints_def sort_key_stable)
qed

theorem ranking_order_witness:
  "rank tied_manager [0, 1, 2] = [2, 0, 1] \<and> precedes (rank tied_manager [0, 1, 2]) 2 0 \<and>
   filter (\<lambda>i. rank_key (endpoints tied_manager ! i) = (Fin 1, 999)) (rank tied_manager [0, 1, 2]) =
     filter (\<lambda>i. rank_key (endpoints tied_manager ! i) = (Fin 1, 999)) [0, 1, 2] \<and>
   sorted (map (\<lambda>i. rank_key (endpoints tied_manager ! i)) (rank tied_manager [0, 1, 2])) \<and>
   filter healthy_flag (fst (check_endpoints open_env two_endpoints 0)) \<noteq> [] \<and>
   sorted (map latency_key (target_endpoints (fst (check_endpoints open_env two_endpoints 0)))) \<and>
   map hostname (target_endpoints (fst (check_endpoints open_env two_endpoints 0))) = [''a'', ''b'']"
proof -
  let ?es = "fst (check_endpoints open_env two_endpoints 0)"
  note t = ranking_order [of tied_manager "[0, 1, 2]" ?es]
  have h: "filter healthy_flag ?es \<noteq> []"
    by (simp add: fixture_defs simple_defs)
  have i: "(2::nat) \<in> set [0, 1, 2]" "(0::nat) \<in> set [0, 1, 2]"
    by simp_all
  have k: "latency_key (endpoints tied_manager ! 2) = latency_key (endpoints tied_manager ! 0) \<and>
      (\<exists>p. priority (endpoints tied_manager ! 2) = Some p \<and> p < 999) \<and>
      priority (endpoints tied_manager ! 0) = None"
    by (simp add: tied_manager_def measured_def fixture_defs latency_key_def)
  from t i k have 1: "precedes (rank tied_manager [0, 1, 2]) 2 0"
    by blast
  from t have 2: "sorted (map (\<lambda>i. rank_key (endpoints tied_manager ! i)) (rank tied_manager [0, 1, 2]))"
    by blast
  from t h have 3: "sorted (map latency_key (target_endpoints ?es))"
    by blast
  from t have 6: "filter (\<lambda>i. rank_key (endpoints tied_manager ! i) = (Fin 1, 999))
        (rank tied_manager [0, 1, 2]) =
      filter (\<lambda>i. rank_key (endpoints tied_manager ! i) = (Fin 1, 999)) [0, 1, 2]"
    by blast
  have 4: "rank tied_manager [0, 1, 2] = [2, 0, 1]"
    by (simp add: tied_manager_def measured_def fixture_defs hybrid_defs)
  have 5: "map hostname (target_endpoints ?es) = [''a'', ''b'']"
    by (simp add: fixture_defs simple_defs)
  from 1 2 3 4 5 6 h show ?thesis
    by (intro conjI)
qed

text \<open>
  The claim as first stated fails: with equal latencies, an endpoint without a
  priority is ranked before one that declares priority 1000.
\<close>

theorem default_priority_counterexample:
  "rank tied_manager [0, 1] = [0, 1] \<and>
   priority (endpoints tied_manager ! 0) = None \<and>
   priority (endpoints tied_manager ! 1) = Some 1000 \<and>
   latency (endpoints tied_manager ! 0) = latency (endpoints tied_manager ! 1)"
  by (simp add: tied_manager_def mk_hybrid_def measured_def mk_endpoint_def rank_def rank_key_def
      latency_key_def priority_key_def less_latency_def)

subsection \<open>The attempt loops\<close>

text \<open>
  What the two loops over the ranked endpoints return. A failure means every
  endpoint of the list was attempted and raised; a connection comes from the first
  endpoint, in list order, whose attempt succeeded.
\<close>

lemma try_endpoints_Inl:
  "try_endpoints E m d u ct es le w = (Inl ex, w') \<Longrightarrow>
     (\<forall>k<length es. \<exists>wk r. fst (attempt E m d u ct (es ! k) wk) = Inl r) \<and>
     (\<exists>lastx. ex = Exception (''Failed to connect to any endpoint'' @
                       (case lastx of None \<Rightarrow> [] | Some e \<Rightarrow> '': '' @ str_exn e)) \<and>
        (if es = [] then lastx = le
         else \<exists>wk r. fst (attempt E m d u ct (last es) wk) = Inl r \<and> lastx = Some r))"
proof (induction es arbitrary: le w)
  case Nil
  then show ?case by simp
next
  case (Cons e es)
  obtain r w1 where a: "attempt E m d u ct e w = (r, w1)"
    by (metis prod.exhaust)
  with Cons.prems obtain x where x: "r = Inl x"
    and t: "try_endpoints E m d u ct es (Some x) w1 = (Inl ex, w')"
    by (cases r) auto
  note ih = Cons.IH [OF t]
  have 1: "\<forall>k<length (e # es). \<exists>wk r. fst (attempt E m d u ct ((e # es) ! k) wk) = Inl r"
  proof (intro allI impI)
    fix k assume k: "k < length (e # es)"
    show "\<exists>wk r. fst (attempt E m d u ct ((e # es) ! k) wk) = Inl r"
    proof (cases k)
      case 0
      with a x show ?thesis by (auto intro!: exI [of _ w])
    next
      case (Suc j)
      with k ih show ?thesis by simp
    qed
  qed
  have 2: "\<exists>lastx. ex = Exception (''Failed to connect to any endpoint'' @
                       (case lastx of None \<Rightarrow> [] | Some e \<Rightarrow> '': '' @ str_exn e)) \<and>
        (\<exists>wk r. fst (attempt E m d u ct (last (e # es)) wk) = Inl r \<and> lastx = Some r)"
  proof (cases "es = []")
    case True
    with ih have "ex = Exception (''Failed to connect to any endpoint'' @
                       (case Some x of None \<Rightarrow> [] | Some e \<Rightarrow> '': '' @ str_exn e))"
      by auto
    moreover from a x True have "fst (attempt E m d u ct (last (e # es)) w) = Inl x"
      by simp
    ultimately show ?thesis by blast
  next
    case False
    with ih show ?thesis by auto
  qed
  from 1 2 show ?case by simp
qed

lemma try_endpoints_Inr:
  "try_endpoints E m d u ct es le w = (Inr c, w') \<Longrightarrow>
     \<exists>k<length es. (\<exists>wk. attempt E m d u ct (es ! k) wk = (Inr c, w')) \<and>
        (\<forall>j<k. \<exists>wj r. fst (attempt E m d u ct (es ! j) wj) = Inl r)"
proof (induction es arbitrary: le w)
  case Nil
  then show ?case by simp
next
  case (Cons e es)
  obtain r w1 where a: "attempt E m d u ct e w = (r, w1)"
    by (metis prod.exhaust)
  show ?case
  proof (cases r)
    case (Inr c')
    with a Cons.prems have "attempt E m d u ct e w = (Inr c, w')" by simp
    then show ?thesis
      by (intro exI [of _ 0]) auto
  next
    case (Inl x)
    with a Cons.prems have t: "try_endpoints E m d u ct es (Some x) w1 = (Inr c, w')"
      by simp
    from Cons.IH [OF t] obtain k where k: "k < length es"
      and s: "\<exists>wk. attempt E m d u ct (es ! k) wk = (Inr c, w')"
      and f: "\<forall>j<k. \<exists>wj r. fst (attempt E m d u ct (es ! j) wj) = Inl r"
      by blast
    have "\<forall>j<Suc k. \<exists>wj r. fst (attempt E m d u ct ((e # es) ! j) wj) = Inl r"
    proof (intro allI impI)
      fix j assume j: "j < Suc k"
      show "\<exists>wj r. fst (attempt E m d u ct ((e # es) ! j) wj) = Inl r"
      proof (cases j)
        case 0
        with a Inl show ?thesis by (auto intro!: exI [of _ w])
      next
        case (Suc i)
        with j f show ?thesis by simp
      qed
    qed
    with k s show ?thesis
      by (intro exI [of _ "Suc k"]) simp
  qed
qed

lemma hybrid_try_Inl:
  "hybrid_try E m d u es errors w = (Inl ex, w') \<Longrightarrow>
     \<exists>reasons. length reasons = length es \<and>
       (\<forall>k<length es. \<exists>wk. fst (hybrid_attempt E m d u (es ! k) wk) = Inl (reasons ! k)) \<and>
       ex = Exception (''Failed to connect to any DSQL endpoint:'' @ [CHR 0x0A] @
              join [CHR 0x0A] (errors @ map2 error_msg es reasons))"
proof (induction es arbitrary: errors w)
  case Nil
  then show ?case by simp
next
  case (Cons e es)
  obtain r w1 where a: "hybrid_attempt E m d u e w = (r, w1)"
    by (metis prod.exhaust)
  with Cons.prems obtain x where x: "r = Inl x"
    and t: "hybrid_try E m d u es (errors @ [error_msg e x]) w1 = (Inl ex, w')"
    by (cases r) auto
  from Cons.IH [OF t] obtain reasons where len: "length reasons = length es"
    and each: "\<forall>k<length es. \<exists>wk. fst (hybrid_attempt E m d u (es ! k) wk) = Inl (reasons ! k)"
    and ex: "ex = Exception (''Failed to connect to any DSQL endpoint:'' @ [CHR 0x0A] @
              join [CHR 0x0A] ((errors @ [error_msg e x]) @ map2 error_msg es reasons))"
    by blast
  have "\<forall>k<length (e # es). \<exists>wk. fst (hybrid_attempt E m d u ((e # es) ! k) wk) = Inl ((x # reasons) ! k)"
  proof (intro allI impI)
    fix k assume k: "k < length (e # es)"
    show "\<exists>wk. fst (hybrid_attempt E m d u ((e # es) ! k) wk) = Inl ((x # reasons) ! k)"
    proof (cases k)
      case 0
      with a x show ?thesis by (auto intro!: exI [of _ w])
    next
      case (Suc j)
      with k each show ?thesis by simp
    qed
  qed
  moreover have "length (x # reasons) = length (e # es)"
    using len by simp
  moreover have "ex = Exception (''Failed to connect to any DSQL endpoint:'' @ [CHR 0x0A] @
              join [CHR 0x0A] (errors @ map2 error_msg (e # es) (x # reasons)))"
    using ex by simp
  ultimately show ?case by blast
qed

lemma hybrid_try_Inr:
  "hybrid_try E m d u es errors w = (Inr c, w') \<Longrightarrow>
     \<exists>k<length es. (\<exists>wk. hybrid_attempt E m d u (es ! k) wk = (Inr c, w')) \<and>
        (\<forall>j<k. \<exists>wj r. fst (hybrid_attempt E m d u (es ! j) wj) = Inl r)"
proof (induction es arbitrary: errors w)
  case Nil
  then show ?case by simp
next
  case (Cons e es)
  obtain r w1 where a: "hybrid_attempt E m d u e w = (r, w1)"
    by (metis prod.exhaust)
  show ?case
  proof (cases r)
    case (Inr c')
    with a Cons.prems have "hybrid_attempt E m d u e w = (Inr c, w')" by simp
    then show ?thesis
      by (intro exI [of _ 0]) auto
  next
    case (Inl x)
    with a Cons.prems have t: "hybrid_try E m d u es (errors @ [error_msg e x]) w1 = (Inr c, w')"
      by simp
    from Cons.IH [OF t] obtain k where k: "k < length es"
      and s: "\<exists>wk. hybrid_attempt E m d u (es ! k) wk = (Inr c, w')"
      and f: "\<forall>j<k. \<exists>wj r. fst (hybrid_attempt E m d u (es ! j) wj) = Inl r"
      by blast
    have "\<forall>j<Suc k. \<exists>wj r. fst (hybrid_attempt E m d u ((e # es) ! j) wj) = Inl r"
    proof (intro allI impI)
      fix j assume j: "j < Suc k"
      show "\<exists>wj r. fst (hybrid_attempt E m d u ((e # es) ! j) wj) = Inl r"
      proof (cases j)
        case 0
        with a Inl show ?thesis by (auto intro!: exI [of _ w])
      next
        case (Suc i)
        with j f show ?thesis by simp
      qed
    qed
    with k s show ?thesis
      by (intro exI [of _ "Suc k"]) simp
  qed
qed

subsection \<open>What health evaluation and measurement change\<close>

lemma check_endpoints_length:
  "check_endpoints E es w = (es', w') \<Longrightarrow> length es' = length es"
  by (induction es arbitrary: es' w) (auto split: prod.splits)

lemma check_endpoints_nth:
  "check_endpoints E es w = (es', w') \<Longrightarrow> i < length es \<Longrightarrow>
     \<exists>wi. es' ! i =
       (es ! i)\<lparr>latency := Some (fst (fst (measure_endpoint E (hostname (es ! i)) (endpoint_port (es ! i)) wi))),
                is_healthy := Some (snd (fst (measure_endpoint E (hostname (es ! i)) (endpoint_port (es ! i)) wi)))\<rparr>"
proof (induction es arbitrary: es' w w' i)
  case Nil
  then show ?case by simp
next
  case (Cons e es)
  obtain lat ok w1 where m: "measure_endpoint E (hostname e) (endpoint_port e) w = ((lat, ok), w1)"
    by (metis prod.exhaust)
  obtain es1 w2 where r: "check_endpoints E es w1 = (es1, w2)"
    by (metis prod.exhaust)
  from Cons.prems(1) m r have es': "es' = e\<lparr>latency := Some lat, is_healthy := Some ok\<rparr> # es1"
    by simp
  show ?case
  proof (cases i)
    case 0
    with es' m show ?thesis
      by (auto intro!: exI [of _ w])
  next
    case (Suc k)
    with Cons.prems(2) have "k < length es" by simp
    from Cons.IH [OF r this] Suc es' show ?thesis by simp
  qed
qed

lemma cache_update_frame:
  assumes "m' = m\<lparr>health_check_cache := c\<rparr>"
  shows "endpoints m' = endpoints m" and "connection_settings m' = connection_settings m"
    and "latency_test_timeout m' = latency_test_timeout m"
    and "latency_test_retries m' = latency_test_retries m"
    and "dsql_available m' = dsql_available m"
  using assms by simp_all

lemma endpoints_update_frame:
  assumes "m' = m\<lparr>endpoints := es\<rparr>"
  shows "connection_settings m' = connection_settings m"
    and "latency_test_timeout m' = latency_test_timeout m"
    and "latency_test_retries m' = latency_test_retries m"
    and "dsql_available m' = dsql_available m"
    and "health_check_cache m' = health_check_cache m"
  using assms by simp_all

lemma check_route53_health_frame:
  "check_route53_health E m hc w = (b, m', w') \<Longrightarrow>
     m' = m\<lparr>health_check_cache := health_check_cache m'\<rparr>"
  by (auto simp: check_route53_health_def Let_def split: prod.splits option.splits sum.splits if_splits)

lemma is_endpoint_healthy_frame:
  "is_endpoint_healthy E m e w = (b, m', w') \<Longrightarrow>
     m' = m\<lparr>health_check_cache := health_check_cache m'\<rparr>"
  by (auto simp: is_endpoint_healthy_def split: option.splits if_splits prod.splits
      dest: check_route53_health_frame)

lemma healthy_loop_frame:
  "healthy_loop E m is w = (hs, m', w') \<Longrightarrow>
     m' = m\<lparr>health_check_cache := health_check_cache m'\<rparr> \<and> set hs \<subseteq> set is \<and>
     (sorted is \<longrightarrow> sorted hs) \<and> (distinct is \<longrightarrow> distinct hs)"
proof (induction "is" arbitrary: m w hs m' w')
  case Nil
  then show ?case by simp
next
  case (Cons i "is")
  obtain ok m1 w1 where h: "is_endpoint_healthy E m (endpoints m ! i) w = (ok, m1, w1)"
    by (metis prod_cases3)
  obtain hs1 m2 w2 where l: "healthy_loop E m1 is w1 = (hs1, m2, w2)"
    by (metis prod_cases3)
  from Cons.IH [OF l] have m2: "m2 = m1\<lparr>health_check_cache := health_check_cache m2\<rparr>"
    and sub: "set hs1 \<subseteq> set is" "sorted is \<longrightarrow> sorted hs1" "distinct is \<longrightarrow> distinct hs1"
    by simp_all
  from is_endpoint_healthy_frame [OF h] have m1: "m1 = m\<lparr>health_check_cache := health_check_cache m1\<rparr>" .
  from Cons.prems h l have r: "hs = (if ok then i # hs1 else hs1)" "m' = m2"
    by simp_all
  have "m2 = m\<lparr>health_check_cache := health_check_cache m2\<rparr>"
    by (subst m2, subst m1) simp
  with r sub show ?case by auto
qed

lemma get_healthy_endpoints_frame:
  assumes "get_healthy_endpoints E m w = (hs, m', w')"
  shows "m' = m\<lparr>health_check_cache := health_check_cache m'\<rparr>"
    and "sorted hs" and "distinct hs" and "\<forall>i\<in>set hs. i < length (endpoints m)"
proof -
  from assms have l: "healthy_loop E m [0..<length (endpoints m)] w = (hs, m', w')"
    by (simp add: get_healthy_endpoints_def)
  from healthy_loop_frame [OF l] show "m' = m\<lparr>health_check_cache := health_check_cache m'\<rparr>"
    and "sorted hs" and "distinct hs" and "\<forall>i\<in>set hs. i < length (endpoints m)"
    by auto
qed


lemma measure_latency_cong:
  "hostname e' = hostname e \<Longrightarrow> port e' = port e \<Longrightarrow>
   latency_test_timeout m' = latency_test_timeout m \<Longrightarrow>
   latency_test_retries m' = latency_test_retries m \<Longrightarrow>
   measure_latency E m' e' w = measure_latency E m e w"
  by (simp add: measure_latency_def split: option.splits)

lemma set_latency_simps:
  "length (endpoints (set_latency m i l)) = length (endpoints m)"
  "latency_test_timeout (set_latency m i l) = latency_test_timeout m"
  "latency_test_retries (set_latency m i l) = latency_test_retries m"
  "connection_settings (set_latency m i l) = connection_settings m"
  "health_check_cache (set_latency m i l) = health_check_cache m"
  by (simp_all add: set_latency_def)

lemma set_latency_nth:
  "j < length (endpoints m) \<Longrightarrow>
     endpoints (set_latency m i l) ! j =
       (if j = i then (endpoints m ! j)\<lparr>latency := Some l\<rparr> else endpoints m ! j)"
  by (simp add: set_latency_def)

text \<open>What \<open>measure_all\<close> leaves alone.\<close>

lemma measure_all_frame:
  "measure_all E m is w = (r, m', w') \<Longrightarrow>
     length (endpoints m') = length (endpoints m) \<and>
     m' = m\<lparr>endpoints := endpoints m'\<rparr> \<and>
     (\<forall>j<length (endpoints m).
        (endpoints m' ! j)\<lparr>latency := latency (endpoints m ! j)\<rparr> = endpoints m ! j \<and>
        (j \<notin> set is \<longrightarrow> endpoints m' ! j = endpoints m ! j))"
proof (induction "is" arbitrary: m w r m' w')
  case Nil
  then show ?case by simp
next
  case (Cons i "is")
  obtain x w1 where ml: "measure_latency E m (endpoints m ! i) w = (x, w1)"
    by (metis prod.exhaust)
  show ?case
  proof (cases x)
    case (Inl ex)
    with ml Cons.prems show ?thesis by simp
  next
    case (Inr l)
    with ml Cons.prems have rec: "measure_all E (set_latency m i l) is w1 = (r, m', w')"
      by simp
    note ih = Cons.IH [OF rec]
    have len: "length (endpoints m') = length (endpoints m)"
      using ih by (simp add: set_latency_simps)
    have rec_eq: "m' = m\<lparr>endpoints := endpoints m'\<rparr>"
    proof -
      from ih have "m' = (set_latency m i l)\<lparr>endpoints := endpoints m'\<rparr>" by simp
      then show ?thesis by (simp add: set_latency_def)
    qed
    have "\<forall>j<length (endpoints m).
        (endpoints m' ! j)\<lparr>latency := latency (endpoints m ! j)\<rparr> = endpoints m ! j \<and>
        (j \<notin> set (i # is) \<longrightarrow> endpoints m' ! j = endpoints m ! j)"
    proof (intro allI impI)
      fix j assume j: "j < length (endpoints m)"
      then have j': "j < length (endpoints (set_latency m i l))"
        by (simp add: set_latency_simps)
      from ih j' have a: "(endpoints m' ! j)\<lparr>latency := latency (endpoints (set_latency m i l) ! j)\<rparr> =
          endpoints (set_latency m i l) ! j"
        and b: "j \<notin> set is \<longrightarrow> endpoints m' ! j = endpoints (set_latency m i l) ! j"
        by simp_all
      have 1: "(endpoints m' ! j)\<lparr>latency := latency (endpoints m ! j)\<rparr> = endpoints m ! j"
      proof -
        have "(endpoints m' ! j)\<lparr>latency := latency (endpoints m ! j)\<rparr> =
              ((endpoints m' ! j)\<lparr>latency := latency (endpoints (set_latency m i l) ! j)\<rparr>)
                \<lparr>latency := latency (endpoints m ! j)\<rparr>"
          by simp
        also have "\<dots> = (endpoints (set_latency m i l) ! j)\<lparr>latency := latency (endpoints m ! j)\<rparr>"
          by (simp only: a)
        also have "\<dots> = endpoints m ! j"
          using j by (simp add: set_latency_nth)
        finally show ?thesis .
      qed
      have 2: "j \<notin> set (i # is) \<longrightarrow> endpoints m' ! j = endpoints m ! j"
        using b j by (auto simp: set_latency_nth)
      from 1 2 show "(endpoints m' ! j)\<lparr>latency := latency (endpoints m ! j)\<rparr> = endpoints m ! j \<and>
        (j \<notin> set (i # is) \<longrightarrow> endpoints m' ! j = endpoints m ! j)" ..
    qed
    with len rec_eq show ?thesis by blast
  qed
qed

text \<open>After a complete pass, every candidate carries a value \<open>measure_latency\<close> returned.\<close>

lemma measure_all_fresh:
  "measure_all E m is w = (None, m', w') \<Longrightarrow> distinct is \<Longrightarrow>
     \<forall>i\<in>set is. i < length (endpoints m) \<Longrightarrow>
     \<forall>i\<in>set is. \<exists>wi l. fst (measure_latency E m (endpoints m ! i) wi) = Inr l \<and>
        latency (endpoints m' ! i) = Some l"
proof (induction "is" arbitrary: m w m' w')
  case Nil
  then show ?case by simp
next
  case (Cons i "is")
  obtain x w1 where ml: "measure_latency E m (endpoints m ! i) w = (x, w1)"
    by (metis prod.exhaust)
  with Cons.prems(1) obtain l where x: "x = Inr l"
    by (cases x) auto
  with ml Cons.prems have rec: "measure_all E (set_latency m i l) is w1 = (None, m', w')"
    by simp
  let ?m1 = "set_latency m i l"
  from Cons.prems have d: "distinct is" and ni: "i \<notin> set is"
    and r: "\<forall>j\<in>set is. j < length (endpoints ?m1)" and i: "i < length (endpoints m)"
    by (simp_all add: set_latency_simps)
  note ih = Cons.IH [OF rec d r]
  from measure_all_frame [OF rec] ni i
  have keep: "endpoints m' ! i = endpoints ?m1 ! i"
    by (simp add: set_latency_simps)
  show ?case
  proof
    fix j assume j: "j \<in> set (i # is)"
    show "\<exists>wi l. fst (measure_latency E m (endpoints m ! j) wi) = Inr l \<and>
        latency (endpoints m' ! j) = Some l"
    proof (cases "j = i")
      case True
      from keep i have "latency (endpoints m' ! i) = Some l"
        by (simp add: set_latency_nth)
      with ml x True show ?thesis
        by (intro exI [of _ w] exI [of _ l]) simp
    next
      case False
      with j have js: "j \<in> set is" by simp
      with r have jl: "j < length (endpoints m)" by (simp add: set_latency_simps)
      from ih js obtain wi l' where
        a: "fst (measure_latency E ?m1 (endpoints ?m1 ! j) wi) = Inr l'"
        and b: "latency (endpoints m' ! j) = Some l'"
        by blast
      have "measure_latency E ?m1 (endpoints ?m1 ! j) wi = measure_latency E m (endpoints m ! j) wi"
        using False jl by (intro measure_latency_cong) (simp_all add: set_latency_nth set_latency_simps)
      with a b show ?thesis by auto
    qed
  qed
qed

subsection \<open>Endpoint selection\<close>

lemma hd_sort_key:
  assumes "xs \<noteq> []"
  shows "hd (sort_key f xs) \<in> set xs"
    and "\<forall>x\<in>set xs. f (hd (sort_key f xs)) \<le> f x"
    and "hd (sort_key f xs) = hd (filter (\<lambda>x. f x = f (hd (sort_key f xs))) xs)"
proof -
  from assms have "sort_key f xs \<noteq> []"
    by (metis length_sort length_0_conv)
  then obtain b rest where s: "sort_key f xs = b # rest"
    by (cases "sort_key f xs") auto
  have "set (b # rest) = set xs"
    by (metis s set_sort)
  then show "hd (sort_key f xs) \<in> set xs"
    using s by auto
  have "sorted (map f (b # rest))"
    by (metis s sorted_sort_key)
  then have "\<forall>x\<in>set (b # rest). f b \<le> f x"
    by auto
  with \<open>set (b # rest) = set xs\<close> show "\<forall>x\<in>set xs. f (hd (sort_key f xs)) \<le> f x"
    using s by simp
  have "filter (\<lambda>y. f y = f b) (sort_key f xs) = filter (\<lambda>y. f y = f b) xs"
    by (rule sort_key_stable)
  then have "filter (\<lambda>y. f y = f b) xs = b # filter (\<lambda>y. f y = f b) rest"
    using s by simp
  then show "hd (sort_key f xs) = hd (filter (\<lambda>x. f x = f (hd (sort_key f xs))) xs)"
    using s by simp
qed

lemma target_endpoints_nonempty: "es \<noteq> [] \<Longrightarrow> target_endpoints es \<noteq> []"
  by (auto simp: target_endpoints_def Let_def) (metis length_sort length_0_conv)

lemma simple_best:
  assumes "filter healthy_flag es \<noteq> []"
  shows "hd (target_endpoints es) \<in> set es \<and> healthy_flag (hd (target_endpoints es)) \<and>
     (\<forall>e\<in>set es. healthy_flag e \<longrightarrow> latency_key (hd (target_endpoints es)) \<le> latency_key e) \<and>
     hd (target_endpoints es) =
       hd (filter (\<lambda>e. healthy_flag e \<and> latency_key e = latency_key (hd (target_endpoints es))) es)"
proof -
  let ?hs = "filter healthy_flag es"
  have t: "target_endpoints es = sort_key latency_key ?hs"
    using assms by (simp add: target_endpoints_def)
  from hd_sort_key [OF assms, of latency_key]
  have 1: "hd (target_endpoints es) \<in> set ?hs"
    and 2: "\<forall>x\<in>set ?hs. latency_key (hd (target_endpoints es)) \<le> latency_key x"
    and 3: "hd (target_endpoints es) =
             hd (filter (\<lambda>x. latency_key x = latency_key (hd (target_endpoints es))) ?hs)"
    by (simp_all only: t)
  have "filter (\<lambda>x. latency_key x = latency_key (hd (target_endpoints es))) ?hs =
        filter (\<lambda>e. healthy_flag e \<and> latency_key e = latency_key (hd (target_endpoints es))) es"
    by (simp add: conj_commute)
  with 1 2 3 show ?thesis by auto
qed

lemma simple_head_success:
  assumes "check_endpoints E (dm_endpoints m) w = (es, w1)"
    and "target_endpoints es \<noteq> []"
    and "attempt E (m\<lparr>dm_endpoints := es\<rparr>) d u ct (hd (target_endpoints es)) w1 = (Inr c, w2)"
  shows "get_connection E m d u ct w = (Inr c, m\<lparr>dm_endpoints := es\<rparr>, w2)"
proof -
  from assms(2) obtain b rest where t: "target_endpoints es = b # rest"
    by (cases "target_endpoints es") auto
  with assms show ?thesis
    by (simp add: get_connection_def)
qed

lemma hybrid_best:
  assumes "hs \<noteq> []"
  shows "hd (rank m hs) \<in> set hs \<and>
     (\<forall>i\<in>set hs. latency_key (endpoints m ! hd (rank m hs)) \<le> latency_key (endpoints m ! i) \<and>
        (latency_key (endpoints m ! hd (rank m hs)) = latency_key (endpoints m ! i) \<longrightarrow>
           priority_key (endpoints m ! hd (rank m hs)) \<le> priority_key (endpoints m ! i))) \<and>
     hd (rank m hs) =
       hd (filter (\<lambda>i. rank_key (endpoints m ! i) = rank_key (endpoints m ! hd (rank m hs))) hs)"
proof -
  let ?f = "\<lambda>i. rank_key (endpoints m ! i)"
  from hd_sort_key [OF assms, of ?f]
  have 1: "hd (rank m hs) \<in> set hs"
    and 2: "\<forall>x\<in>set hs. ?f (hd (rank m hs)) \<le> ?f x"
    and 3: "hd (rank m hs) = hd (filter (\<lambda>x. ?f x = ?f (hd (rank m hs))) hs)"
    by (simp_all only: rank_def)
  from 2 have "\<forall>i\<in>set hs. latency_key (endpoints m ! hd (rank m hs)) \<le> latency_key (endpoints m ! i) \<and>
        (latency_key (endpoints m ! hd (rank m hs)) = latency_key (endpoints m ! i) \<longrightarrow>
           priority_key (endpoints m ! hd (rank m hs)) \<le> priority_key (endpoints m ! i))"
    by (auto simp: rank_key_def)
  with 1 3 show ?thesis by blast
qed

lemma hybrid_head_success:
  assumes "get_healthy_endpoints E hm w = (hs, m1, w1)"
    and "hs \<noteq> []"
    and "measure_all E m1 hs w1 = (None, m2, w2)"
    and "hybrid_attempt E m2 d u (endpoints m2 ! hd (rank m2 hs)) w2 = (Inr c, w3)"
  shows "hybrid_get_connection E hm d u w = (Inr c, m2, w3)"
proof -
  from assms(2) have "rank m2 hs \<noteq> []"
    by (metis rank_def length_sort length_0_conv)
  then obtain b rest where t: "rank m2 hs = b # rest"
    by (cases "rank m2 hs") auto
  with assms show ?thesis
    by (simp add: hybrid_get_connection_def)
qed

lemma measure_latency_with_port:
  "port e = Some p \<Longrightarrow> \<exists>l w'. measure_latency E m e w = (Inr l, w')"
  by (simp add: measure_latency_def split: prod.splits)

lemma measure_all_total:
  "\<forall>i\<in>set is. i < length (endpoints m) \<and> port (endpoints m ! i) \<noteq> None \<Longrightarrow>
     \<exists>m' w'. measure_all E m is w = (None, m', w')"
proof (induction "is" arbitrary: m w)
  case Nil
  then show ?case by simp
next
  case (Cons i "is")
  from Cons.prems obtain p where p: "port (endpoints m ! i) = Some p"
    by auto
  from measure_latency_with_port [OF p, of E m w] obtain l w1 where
    ml: "measure_latency E m (endpoints m ! i) w = (Inr l, w1)"
    by blast
  have "\<forall>j\<in>set is. j < length (endpoints (set_latency m i l)) \<and>
          port (endpoints (set_latency m i l) ! j) \<noteq> None"
    using Cons.prems by (auto simp: set_latency_simps set_latency_nth)
  from Cons.IH [OF this] obtain m' w' where
    "measure_all E (set_latency m i l) is w1 = (None, m', w')"
    by blast
  with ml show ?case by simp
qed

lemma hybrid_measures_all:
  assumes g: "get_healthy_endpoints E hm w = (hs, m1, v1)"
    and p: "\<forall>i\<in>set hs. port (endpoints hm ! i) \<noteq> None"
  shows "\<exists>m2 v2. measure_all E m1 hs v1 = (None, m2, v2)"
proof -
  from get_healthy_endpoints_frame [OF g]
  have m1: "m1 = hm\<lparr>health_check_cache := health_check_cache m1\<rparr>"
    and r: "\<forall>i\<in>set hs. i < length (endpoints hm)"
    by simp_all
  from cache_update_frame(1) [OF m1] have "endpoints m1 = endpoints hm" .
  with p r have "\<forall>i\<in>set hs. i < length (endpoints m1) \<and> port (endpoints m1 ! i) \<noteq> None"
    by simp
  then show ?thesis by (rule measure_all_total)
qed

text \<open>
  Claim C1, as amended. When at least one endpoint is evaluated healthy, the first
  endpoint \<open>get_connection\<close> attempts is a healthy endpoint of lowest measured
  latency. \<open>DSQLConnectionManager\<close> breaks latency ties by input order alone (it
  never reads the priority). The hybrid manager, when every endpoint it evaluated
  healthy has a \<open>port\<close> key, completes its latency measurements and breaks ties by
  priority, a missing priority counting as 999, and then by input order. In both
  managers the call returns the connection opened for that endpoint whenever its
  token and its connection-open succeed.
\<close>

theorem connect_selects_best:
  "(check_endpoints E (dm_endpoints m) w = (es, w1) \<and> filter healthy_flag es \<noteq> [] \<longrightarrow>
      (let best = hd (target_endpoints es) in
         best \<in> set es \<and> healthy_flag best \<and>
         (\<forall>e\<in>set es. healthy_flag e \<longrightarrow> latency_key best \<le> latency_key e) \<and>
         best = hd (filter (\<lambda>e. healthy_flag e \<and> latency_key e = latency_key best) es) \<and>
         (\<forall>c w2. attempt E (m\<lparr>dm_endpoints := es\<rparr>) d u ct best w1 = (Inr c, w2) \<longrightarrow>
            get_connection E m d u ct w = (Inr c, m\<lparr>dm_endpoints := es\<rparr>, w2)))) \<and>
   (get_healthy_endpoints E hm w = (hs, m1, v1) \<and> hs \<noteq> [] \<and>
    (\<forall>i\<in>set hs. port (endpoints hm ! i) \<noteq> None) \<longrightarrow>
      (\<exists>m2 v2. measure_all E m1 hs v1 = (None, m2, v2) \<and>
         (let best = hd (rank m2 hs) in
            best \<in> set hs \<and> sorted hs \<and>
            (\<forall>i\<in>set hs.
               latency_key (endpoints m2 ! best) \<le> latency_key (endpoints m2 ! i) \<and>
               (latency_key (endpoints m2 ! best) = latency_key (endpoints m2 ! i) \<longrightarrow>
                  priority_key (endpoints m2 ! best) \<le> priority_key (endpoints m2 ! i))) \<and>
            best = hd (filter (\<lambda>i. rank_key (endpoints m2 ! i) = rank_key (endpoints m2 ! best)) hs) \<and>
            (\<forall>c v3. hybrid_attempt E m2 d u (endpoints m2 ! best) v2 = (Inr c, v3) \<longrightarrow>
               hybrid_get_connection E hm d u w = (Inr c, m2, v3)))))"
proof (rule conjI; rule impI)
  assume a: "check_endpoints E (dm_endpoints m) w = (es, w1) \<and> filter healthy_flag es \<noteq> []"
  then have ne: "target_endpoints es \<noteq> []"
    by (intro target_endpoints_nonempty) auto
  from a simple_best [of es] simple_head_success [of E m w es w1 d u ct, OF _ ne]
  show "let best = hd (target_endpoints es) in
         best \<in> set es \<and> healthy_flag best \<and>
         (\<forall>e\<in>set es. healthy_flag e \<longrightarrow> latency_key best \<le> latency_key e) \<and>
         best = hd (filter (\<lambda>e. healthy_flag e \<and> latency_key e = latency_key best) es) \<and>
         (\<forall>c w2. attempt E (m\<lparr>dm_endpoints := es\<rparr>) d u ct best w1 = (Inr c, w2) \<longrightarrow>
            get_connection E m d u ct w = (Inr c, m\<lparr>dm_endpoints := es\<rparr>, w2))"
    by (simp add: Let_def)
next
  assume a: "get_healthy_endpoints E hm w = (hs, m1, v1) \<and> hs \<noteq> [] \<and>
    (\<forall>i\<in>set hs. port (endpoints hm ! i) \<noteq> None)"
  then have g: "get_healthy_endpoints E hm w = (hs, m1, v1)" and ne: "hs \<noteq> []"
    and p: "\<forall>i\<in>set hs. port (endpoints hm ! i) \<noteq> None"
    by simp_all
  from hybrid_measures_all [OF g p] obtain m2 v2 where
    ma: "measure_all E m1 hs v1 = (None, m2, v2)"
    by blast
  from get_healthy_endpoints_frame(2) [OF g] have s: "sorted hs" .
  from hybrid_best [OF ne, of m2] s hybrid_head_success [OF g ne ma]
  have "let best = hd (rank m2 hs) in
         best \<in> set hs \<and> sorted hs \<and>
         (\<forall>i\<in>set hs.
            latency_key (endpoints m2 ! best) \<le> latency_key (endpoints m2 ! i) \<and>
            (latency_key (endpoints m2 ! best) = latency_key (endpoints m2 ! i) \<longrightarrow>
               priority_key (endpoints m2 ! best) \<le> priority_key (endpoints m2 ! i))) \<and>
         best = hd (filter (\<lambda>i. rank_key (endpoints m2 ! i) = rank_key (endpoints m2 ! best)) hs) \<and>
         (\<forall>c v3. hybrid_attempt E m2 d u (endpoints m2 ! best) v2 = (Inr c, v3) \<longrightarrow>
            hybrid_get_connection E hm d u w = (Inr c, m2, v3))"
    by (simp add: Let_def)
  with ma show "\<exists>m2 v2. measure_all E m1 hs v1 = (None, m2, v2) \<and>
         (let best = hd (rank m2 hs) in
            best \<in> set hs \<and> sorted hs \<and>
            (\<forall>i\<in>set hs.
               latency_key (endpoints m2 ! best) \<le> latency_key (endpoints m2 ! i) \<and>
               (latency_key (endpoints m2 ! best) = latency_key (endpoints m2 ! i) \<longrightarrow>
                  priority_key (endpoints m2 ! best) \<le> priority_key (endpoints m2 ! i))) \<and>
            best = hd (filter (\<lambda>i. rank_key (endpoints m2 ! i) = rank_key (endpoints m2 ! best)) hs) \<and>
            (\<forall>c v3. hybrid_attempt E m2 d u (endpoints m2 ! best) v2 = (Inr c, v3) \<longrightarrow>
               hybrid_get_connection E hm d u w = (Inr c, m2, v3)))"
    by blast
qed

theorem connect_selects_best_witness:
  "filter healthy_flag (fst (check_endpoints warming_env (dm_endpoints two_manager) 0)) \<noteq> [] \<and>
   hostname (hd (target_endpoints (fst (check_endpoints warming_env (dm_endpoints two_manager) 0)))) = ''b'' \<and>
   (case fst (get_connection warming_env two_manager ''db'' ''admin'' 5 0) of
      Inr (Connection cp) \<Rightarrow> cp ''host'' = Some (VStr ''b'')
    | Inl ex \<Rightarrow> False) \<and>
   fst (get_healthy_endpoints warming_env two_hybrid 0) = [0, 1] \<and>
   port (endpoints two_hybrid ! 0) = Some 5432 \<and> port (endpoints two_hybrid ! 1) = Some 5432 \<and>
   fst (measure_all warming_env two_hybrid [0, 1] (13 / 5)) = None \<and>
   hd (rank (fst (snd (measure_all warming_env two_hybrid [0, 1] (13 / 5)))) [0, 1]) = 0 \<and>
   (case fst (hybrid_get_connection warming_env two_hybrid ''db'' ''admin'' 0) of
      Inr (Connection cp) \<Rightarrow> cp ''host'' = Some (VStr ''a'')
    | Inl ex \<Rightarrow> False)"
proof -
  let ?es = "fst (check_endpoints warming_env (dm_endpoints two_manager) 0)"
  have c: "check_endpoints warming_env (dm_endpoints two_manager) 0 = (?es, 13 / 5)"
    by (simp add: fixture_defs simple_defs)
  have h: "filter healthy_flag ?es \<noteq> []"
    by (simp add: fixture_defs simple_defs)
  have g: "get_healthy_endpoints warming_env two_hybrid 0 = ([0, 1], two_hybrid, 13 / 5)"
    by (simp add: fixture_defs hybrid_defs)
  have p: "\<forall>i\<in>set [0::nat, 1]. port (endpoints two_hybrid ! i) \<noteq> None"
    by (simp add: fixture_defs)
  have n: "[0::nat, 1] \<noteq> []"
    by simp
  note t = connect_selects_best [where E = warming_env and m = two_manager and w = 0 and es = ?es
      and ?w1.0 = "13 / 5" and d = "''db''" and u = "''admin''" and ct = 5 and hm = two_hybrid
      and hs = "[0, 1]" and ?m1.0 = two_hybrid and ?v1.0 = "13 / 5"]
  from t c h g p n show ?thesis
    by (simp add: fixture_defs simple_defs hybrid_defs Let_def)
qed

text \<open>
  The claim as first stated fails in \<open>DSQLConnectionManager\<close>: two reachable
  endpoints with the same measured latency, the second with the lower priority;
  the connection goes to the first.
\<close>

theorem priority_tie_counterexample:
  "(case get_connection open_env two_manager ''db'' ''admin'' 5 0 of
      (Inr (Connection cp), m', w') \<Rightarrow>
        cp ''host'' = Some (VStr ''a'') \<and>
        map latency (dm_endpoints m') = [Some (Fin 1000), Some (Fin 1000)] \<and>
        map is_healthy (dm_endpoints m') = [Some True, Some True] \<and>
        map priority (dm_endpoints m') = [Some 2, Some 1]
    | (Inl ex, m', w') \<Rightarrow> False)"
  by (simp add: fixture_defs simple_defs)

subsection \<open>No healthy endpoint\<close>

lemma target_endpoints_fallback: "filter healthy_flag es = [] \<Longrightarrow> target_endpoints es = es"
  by (simp add: target_endpoints_def)

lemma get_connection_unfold:
  "check_endpoints E (dm_endpoints m) w = (es, w1) \<Longrightarrow>
     fst (get_connection E m d u ct w) =
       fst (try_endpoints E (m\<lparr>dm_endpoints := es\<rparr>) d u ct (target_endpoints es) None w1)"
  by (simp add: get_connection_def Let_def split: prod.splits)

lemma fallback_all_attempted:
  assumes "check_endpoints E (dm_endpoints m) w = (es, w1)"
    and "filter healthy_flag es = []"
    and "fst (get_connection E m d u ct w) = Inl ex"
  shows "\<forall>k<length es. \<exists>wk r. fst (attempt E (m\<lparr>dm_endpoints := es\<rparr>) d u ct (es ! k) wk) = Inl r"
proof -
  let ?m = "m\<lparr>dm_endpoints := es\<rparr>"
  from assms have "fst (try_endpoints E ?m d u ct es None w1) = Inl ex"
    by (simp add: get_connection_unfold target_endpoints_fallback)
  then obtain w' where "try_endpoints E ?m d u ct es None w1 = (Inl ex, w')"
    by (metis prod.collapse)
  from try_endpoints_Inl [OF this] show ?thesis by blast
qed

lemma fallback_succeeds:
  assumes "check_endpoints E (dm_endpoints m) w = (es, w1)"
    and "filter healthy_flag es = []"
    and "\<exists>e\<in>set es. \<forall>wk. \<exists>c. fst (attempt E (m\<lparr>dm_endpoints := es\<rparr>) d u ct e wk) = Inr c"
  shows "\<exists>c. fst (get_connection E m d u ct w) = Inr c"
proof (cases "fst (get_connection E m d u ct w)")
  case (Inr c)
  then show ?thesis by blast
next
  case (Inl ex)
  let ?m = "m\<lparr>dm_endpoints := es\<rparr>"
  from assms(3) obtain e where e: "e \<in> set es"
    and ok: "\<forall>wk. \<exists>c. fst (attempt E ?m d u ct e wk) = Inr c"
    by blast
  from e obtain k where k: "k < length es" "es ! k = e"
    by (auto simp: in_set_conv_nth)
  from fallback_all_attempted [OF assms(1,2) Inl] k
  obtain wk r where "fst (attempt E ?m d u ct e wk) = Inl r"
    by blast
  with ok show ?thesis
    by (metis sum.distinct(1))
qed

lemma hybrid_no_healthy:
  "fst (get_healthy_endpoints E hm w) = [] \<Longrightarrow>
     fst (hybrid_get_connection E hm d u w) = Inl (Exception ''No healthy DSQL endpoints available'')"
  by (cases "get_healthy_endpoints E hm w") (simp add: hybrid_get_connection_def)

lemma check_direct_health_oracles:
  "check_direct_health (E\<lparr>generate_token := g, pg_connect := f\<rparr>) m e w = check_direct_health E m e w"
  by (simp add: check_direct_health_def split: option.splits)

lemma check_route53_health_oracles:
  "check_route53_health (E\<lparr>generate_token := g, pg_connect := f\<rparr>) m hc w =
     check_route53_health E m hc w"
  by (simp add: check_route53_health_def split: prod.splits option.splits)

lemma is_endpoint_healthy_oracles:
  "is_endpoint_healthy (E\<lparr>generate_token := g, pg_connect := f\<rparr>) m e w = is_endpoint_healthy E m e w"
  by (simp add: is_endpoint_healthy_def check_route53_health_oracles check_direct_health_oracles
      split: option.splits)

lemma healthy_loop_oracles:
  "healthy_loop (E\<lparr>generate_token := g, pg_connect := f\<rparr>) m is w = healthy_loop E m is w"
  by (induction "is" arbitrary: m w) (simp_all add: is_endpoint_healthy_oracles)

lemma get_healthy_endpoints_oracles:
  "get_healthy_endpoints (E\<lparr>generate_token := g, pg_connect := f\<rparr>) m w = get_healthy_endpoints E m w"
  by (simp add: get_healthy_endpoints_def healthy_loop_oracles)

lemma hybrid_no_attempt:
  assumes "fst (get_healthy_endpoints E hm w) = []"
  shows "hybrid_get_connection (E\<lparr>generate_token := g, pg_connect := f\<rparr>) hm d u w =
     (Inl (Exception ''No healthy DSQL endpoints available''), snd (get_healthy_endpoints E hm w))"
proof -
  obtain hs m1 w1 where h: "get_healthy_endpoints E hm w = (hs, m1, w1)"
    by (metis prod_cases3)
  with assms have "hs = []" by simp
  with h show ?thesis
    by (simp add: hybrid_get_connection_def get_healthy_endpoints_oracles)
qed

lemma fallback_first_success:
  assumes "check_endpoints E (dm_endpoints m) w = (es, w1)"
    and "filter healthy_flag es = []"
    and "fst (get_connection E m d u ct w) = Inr c"
  shows "\<exists>k<length es.
           (\<exists>wk. fst (attempt E (m\<lparr>dm_endpoints := es\<rparr>) d u ct (es ! k) wk) = Inr c) \<and>
           (\<forall>j<k. \<exists>wj r. fst (attempt E (m\<lparr>dm_endpoints := es\<rparr>) d u ct (es ! j) wj) = Inl r)"
proof -
  let ?m = "m\<lparr>dm_endpoints := es\<rparr>"
  from assms have "fst (try_endpoints E ?m d u ct es None w1) = Inr c"
    by (simp add: get_connection_unfold target_endpoints_fallback)
  then obtain w' where "try_endpoints E ?m d u ct es None w1 = (Inr c, w')"
    by (metis prod.collapse)
  from try_endpoints_Inr [OF this] obtain k where "k < length es"
    and "\<exists>wk. attempt E ?m d u ct (es ! k) wk = (Inr c, w')"
    and "\<forall>j<k. \<exists>wj r. fst (attempt E ?m d u ct (es ! j) wj) = Inl r"
    by blast
  then show ?thesis
    by (intro exI [of _ k]) (metis fst_conv)
qed

lemma fallback_loop:
  assumes "check_endpoints E (dm_endpoints m) w = (es, w1)"
    and "filter healthy_flag es = []"
  shows "get_connection E m d u ct w =
     (case try_endpoints E (m\<lparr>dm_endpoints := es\<rparr>) d u ct es None w1 of
        (r, w2) \<Rightarrow> (r, m\<lparr>dm_endpoints := es\<rparr>, w2))"
  using assms by (simp add: get_connection_def target_endpoints_fallback Let_def)

text \<open>
  Claim C2, as amended. In \<open>DSQLConnectionManager\<close>, when no endpoint is healthy
  the candidates are the whole endpoint list in input order: the call is the
  attempt loop over that list, started in the world the probes left. A connection
  comes from the first endpoint, in input order, whose attempt succeeds; the call
  fails only after an attempt on every endpoint has failed; and it succeeds
  whenever some endpoint's token and connection-open succeed. The hybrid manager
  raises "No healthy DSQL endpoints available" at once: manager and world are as
  health evaluation left them, whatever the token service and the database would
  have answered, so no token is minted and no connection attempted.
\<close>

theorem no_healthy_endpoint:
  "(check_endpoints E (dm_endpoints m) w = (es, w1) \<and> filter healthy_flag es = [] \<longrightarrow>
      target_endpoints es = es \<and>
      get_connection E m d u ct w =
        (case try_endpoints E (m\<lparr>dm_endpoints := es\<rparr>) d u ct es None w1 of
           (r, w2) \<Rightarrow> (r, m\<lparr>dm_endpoints := es\<rparr>, w2)) \<and>
      (\<forall>c. fst (get_connection E m d u ct w) = Inr c \<longrightarrow>
         (\<exists>k<length es.
            (\<exists>wk. fst (attempt E (m\<lparr>dm_endpoints := es\<rparr>) d u ct (es ! k) wk) = Inr c) \<and>
            (\<forall>j<k. \<exists>wj r. fst (attempt E (m\<lparr>dm_endpoints := es\<rparr>) d u ct (es ! j) wj) = Inl r))) \<and>
      (\<forall>ex. fst (get_connection E m d u ct w) = Inl ex \<longrightarrow>
         (\<forall>k<length es. \<exists>wk r.
            fst (attempt E (m\<lparr>dm_endpoints := es\<rparr>) d u ct (es ! k) wk) = Inl r)) \<and>
      ((\<exists>e\<in>set es. \<forall>wk. \<exists>c. fst (attempt E (m\<lparr>dm_endpoints := es\<rparr>) d u ct e wk) = Inr c) \<longrightarrow>
         (\<exists>c. fst (get_connection E m d u ct w) = Inr c))) \<and>
   (fst (get_healthy_endpoints E hm w) = [] \<longrightarrow>
      (\<forall>g f. hybrid_get_connection (E\<lparr>generate_token := g, pg_connect := f\<rparr>) hm d u w =
         (Inl (Exception ''No healthy DSQL endpoints available''),
          snd (get_healthy_endpoints E hm w))))"
  using target_endpoints_fallback [of es] fallback_all_attempted [of E m w es w1 d u ct]
    fallback_succeeds [of E m w es w1 d u ct] fallback_first_success [of E m w es w1 d u ct]
    fallback_loop [of E m w es w1 d u ct] hybrid_no_attempt [of E hm w _ _ d u]
  by blast

theorem no_healthy_endpoint_witness:
  "filter healthy_flag (fst (check_endpoints closed_env (dm_endpoints two_manager) 0)) = [] \<and>
   target_endpoints (fst (check_endpoints closed_env (dm_endpoints two_manager) 0)) =
     fst (check_endpoints closed_env (dm_endpoints two_manager) 0) \<and>
   (\<exists>c. fst (get_connection closed_env two_manager ''db'' ''admin'' 5 0) = Inr c) \<and>
   fst (get_healthy_endpoints closed_env two_hybrid 0) = [] \<and>
   hybrid_get_connection
     (closed_env\<lparr>generate_token := (\<lambda>h r w. (Inl ''no token'', w + 1)),
                 pg_connect := (\<lambda>cp w. (Some ''down'', w + 1))\<rparr>)
     two_hybrid ''db'' ''admin'' 0 =
     (Inl (Exception ''No healthy DSQL endpoints available''), two_hybrid, 0)"
proof -
  let ?es = "fst (check_endpoints closed_env (dm_endpoints two_manager) 0)"
  have c: "check_endpoints closed_env (dm_endpoints two_manager) 0 = (?es, 0)"
    by (simp add: fixture_defs simple_defs)
  have h: "filter healthy_flag ?es = []"
    by (simp add: fixture_defs simple_defs)
  have a: "\<exists>e\<in>set ?es. \<forall>wk. \<exists>c.
      fst (attempt closed_env (two_manager\<lparr>dm_endpoints := ?es\<rparr>) ''db'' ''admin'' 5 e wk) = Inr c"
    by (auto simp: fixture_defs simple_defs)
  have g: "fst (get_healthy_endpoints closed_env two_hybrid 0) = []"
    by (simp add: fixture_defs hybrid_defs)
  have g2: "snd (get_healthy_endpoints closed_env two_hybrid 0) = (two_hybrid, 0)"
    by (simp add: fixture_defs hybrid_defs)
  note t = no_healthy_endpoint [where E = closed_env and m = two_manager and w = 0 and es = ?es
      and ?w1.0 = 0 and d = "''db''" and u = "''admin''" and ct = 5 and hm = two_hybrid]
  from t c h a have 1: "target_endpoints ?es = ?es"
    and 2: "\<exists>c. fst (get_connection closed_env two_manager ''db'' ''admin'' 5 0) = Inr c"
    by blast+
  from t g have "hybrid_get_connection
     (closed_env\<lparr>generate_token := (\<lambda>h r w. (Inl ''no token'', w + 1)),
                 pg_connect := (\<lambda>cp w. (Some ''down'', w + 1))\<rparr>)
     two_hybrid ''db'' ''admin'' 0 =
     (Inl (Exception ''No healthy DSQL endpoints available''),
      snd (get_healthy_endpoints closed_env two_hybrid 0))"
    by blast
  with g2 have 3: "hybrid_get_connection
     (closed_env\<lparr>generate_token := (\<lambda>h r w. (Inl ''no token'', w + 1)),
                 pg_connect := (\<lambda>cp w. (Some ''down'', w + 1))\<rparr>)
     two_hybrid ''db'' ''admin'' 0 =
     (Inl (Exception ''No healthy DSQL endpoints available''), two_hybrid, 0)"
    by simp
  from h 1 2 g 3 show ?thesis
    by (intro conjI)
qed

text \<open>
  The claim as first stated fails in the hybrid manager: Route 53 reports the only
  endpoint unhealthy, its port is open and the database would accept the
  connection, and the call raises without an attempt.
\<close>

theorem hybrid_no_fallback_counterexample:
  "fst (hybrid_get_connection (r53_env [Some ''Failure: connection refused'']) checked_hybrid
          ''db'' ''admin'' 0) = Inl (Exception ''No healthy DSQL endpoints available'') \<and>
   fst (sock_connect (r53_env [Some ''Failure: connection refused'']) ''a'' 5432 2 0) = None \<and>
   fst (pg_connect (r53_env [Some ''Failure: connection refused''])
          (hybrid_conn_params checked_hybrid (endpoints checked_hybrid ! 0) 5432 ''db'' ''admin'' ''token'') 0) = None"
  by (simp add: fixture_defs hybrid_defs)

subsection \<open>The error when every attempt fails\<close>

lemma hybrid_all_failed:
  assumes "get_healthy_endpoints E hm w = (hs, m1, v1)" and "hs \<noteq> []"
    and "measure_all E m1 hs v1 = (None, m2, v2)"
    and "fst (hybrid_get_connection E hm d u w) = Inl ex"
  shows "\<exists>reasons. length reasons = length hs \<and>
         (\<forall>k<length hs. \<exists>wk.
            fst (hybrid_attempt E m2 d u (endpoints m2 ! (rank m2 hs ! k)) wk) = Inl (reasons ! k)) \<and>
         ex = Exception (''Failed to connect to any DSQL endpoint:'' @ [CHR 0x0A] @
                join [CHR 0x0A]
                  (map2 error_msg (map (\<lambda>i. endpoints m2 ! i) (rank m2 hs)) reasons))"
proof -
  let ?ranked = "map (\<lambda>i. endpoints m2 ! i) (rank m2 hs)"
  from assms have "fst (hybrid_try E m2 d u ?ranked [] v2) = Inl ex"
    by (auto simp: hybrid_get_connection_def split: prod.splits)
  then obtain v3 where "hybrid_try E m2 d u ?ranked [] v2 = (Inl ex, v3)"
    by (metis prod.collapse)
  from hybrid_try_Inl [OF this] obtain reasons where
    len: "length reasons = length ?ranked"
    and each: "\<forall>k<length ?ranked. \<exists>wk. fst (hybrid_attempt E m2 d u (?ranked ! k) wk) = Inl (reasons ! k)"
    and ex: "ex = Exception (''Failed to connect to any DSQL endpoint:'' @ [CHR 0x0A] @
              join [CHR 0x0A] ([] @ map2 error_msg ?ranked reasons))"
    by blast
  have l: "length ?ranked = length hs"
    by (simp add: rank_def)
  from each l have "\<forall>k<length hs. \<exists>wk.
      fst (hybrid_attempt E m2 d u (endpoints m2 ! (rank m2 hs ! k)) wk) = Inl (reasons ! k)"
    by (simp add: rank_def)
  moreover from len l have "length reasons = length hs" by simp
  moreover from ex have "ex = Exception (''Failed to connect to any DSQL endpoint:'' @ [CHR 0x0A] @
              join [CHR 0x0A] (map2 error_msg ?ranked reasons))"
    by simp
  ultimately show ?thesis by blast
qed

lemma simple_all_failed:
  assumes "check_endpoints E (dm_endpoints m) w = (es, w1)" and "es \<noteq> []"
    and "fst (get_connection E m d u ct w) = Inl ex"
  shows "\<exists>wk r. fst (attempt E (m\<lparr>dm_endpoints := es\<rparr>) d u ct (last (target_endpoints es)) wk) = Inl r \<and>
         ex = Exception (''Failed to connect to any endpoint: '' @ str_exn r)"
proof -
  let ?m = "m\<lparr>dm_endpoints := es\<rparr>"
  from assms have ne: "target_endpoints es \<noteq> []"
    by (simp add: target_endpoints_nonempty)
  from assms have "fst (try_endpoints E ?m d u ct (target_endpoints es) None w1) = Inl ex"
    by (simp add: get_connection_unfold)
  then obtain w2 where "try_endpoints E ?m d u ct (target_endpoints es) None w1 = (Inl ex, w2)"
    by (metis prod.collapse)
  from try_endpoints_Inl [OF this] ne obtain lastx wk r where
    "ex = Exception (''Failed to connect to any endpoint'' @
                       (case lastx of None \<Rightarrow> [] | Some e \<Rightarrow> '': '' @ str_exn e))"
    and "fst (attempt E ?m d u ct (last (target_endpoints es)) wk) = Inl r" and "lastx = Some r"
    by auto
  then show ?thesis by auto
qed

text \<open>
  Claim C3, as amended. When every attempt of the hybrid manager fails, the
  exception lists one line per ranked endpoint, in ranked order, each line naming
  the endpoint's hostname and the reason its attempt raised. \<open>DSQLConnectionManager\<close>
  reports the reason of the last attempted endpoint only.
\<close>

theorem all_endpoints_failed:
  "(get_healthy_endpoints E hm w = (hs, m1, v1) \<and> hs \<noteq> [] \<and>
    measure_all E m1 hs v1 = (None, m2, v2) \<and>
    fst (hybrid_get_connection E hm d u w) = Inl ex \<longrightarrow>
      (\<exists>reasons. length reasons = length hs \<and>
         (\<forall>k<length hs. \<exists>wk.
            fst (hybrid_attempt E m2 d u (endpoints m2 ! (rank m2 hs ! k)) wk) = Inl (reasons ! k)) \<and>
         ex = Exception (''Failed to connect to any DSQL endpoint:'' @ [CHR 0x0A] @
                join [CHR 0x0A]
                  (map2 error_msg (map (\<lambda>i. endpoints m2 ! i) (rank m2 hs)) reasons)))) \<and>
   (check_endpoints E (dm_endpoints m) w = (es, w1) \<and> es \<noteq> [] \<and>
    fst (get_connection E m d' u' ct w) = Inl ex' \<longrightarrow>
      (\<exists>wk r. fst (attempt E (m\<lparr>dm_endpoints := es\<rparr>) d' u' ct (last (target_endpoints es)) wk) = Inl r \<and>
         ex' = Exception (''Failed to connect to any endpoint: '' @ str_exn r)))"
  using hybrid_all_failed [of E hm w hs m1 v1 m2 v2 d u ex]
    simple_all_failed [of E m w es w1 d' u' ct ex']
  by blast

theorem all_endpoints_failed_witness:
  "fst (get_healthy_endpoints refusing_env two_hybrid 0) = [0, 1] \<and>
   fst (measure_all refusing_env two_hybrid [0, 1] 2) = None \<and>
   fst (hybrid_get_connection refusing_env two_hybrid ''db'' ''admin'' 0) =
     Inl (Exception (''Failed to connect to any DSQL endpoint:'' @ [CHR 0x0A] @
            ''Failed to connect to b: refused by b'' @ [CHR 0x0A] @
            ''Failed to connect to a: refused by a'')) \<and>
   (\<exists>reasons. length reasons = length [0::nat, 1] \<and>
      Exception (''Failed to connect to any DSQL endpoint:'' @ [CHR 0x0A] @
            ''Failed to connect to b: refused by b'' @ [CHR 0x0A] @
            ''Failed to connect to a: refused by a'') =
      Exception (''Failed to connect to any DSQL endpoint:'' @ [CHR 0x0A] @
         join [CHR 0x0A]
           (map2 error_msg
              (map (\<lambda>i. endpoints (fst (snd (measure_all refusing_env two_hybrid [0, 1] 2))) ! i)
                 (rank (fst (snd (measure_all refusing_env two_hybrid [0, 1] 2))) [0, 1]))
              reasons))) \<and>
   fst (get_connection refusing_env two_manager ''db'' ''admin'' 5 0) =
     Inl (Exception ''Failed to connect to any endpoint: refused by b'')"
proof -
  let ?m2 = "fst (snd (measure_all refusing_env two_hybrid [0, 1] 2))"
  let ?ex = "Exception (''Failed to connect to any DSQL endpoint:'' @ [CHR 0x0A] @
            ''Failed to connect to b: refused by b'' @ [CHR 0x0A] @
            ''Failed to connect to a: refused by a'')"
  let ?es = "fst (check_endpoints refusing_env (dm_endpoints two_manager) 0)"
  have g: "get_healthy_endpoints refusing_env two_hybrid 0 = ([0, 1], two_hybrid, 2)"
    by (simp add: fixture_defs hybrid_defs)
  have ma: "measure_all refusing_env two_hybrid [0, 1] 2 = (None, ?m2, 8)"
    by (simp add: fixture_defs hybrid_defs)
  have r: "fst (hybrid_get_connection refusing_env two_hybrid ''db'' ''admin'' 0) = Inl ?ex"
    by (simp add: fixture_defs hybrid_defs)
  have c: "check_endpoints refusing_env (dm_endpoints two_manager) 0 = (?es, 2)"
    by (simp add: fixture_defs simple_defs)
  have ne: "?es \<noteq> []"
    by (simp add: fixture_defs simple_defs)
  have s: "fst (get_connection refusing_env two_manager ''db'' ''admin'' 5 0) =
     Inl (Exception ''Failed to connect to any endpoint: refused by b'')"
    by (simp add: fixture_defs simple_defs)
  have n: "[0::nat, 1] \<noteq> []"
    by simp
  note t = all_endpoints_failed [where E = refusing_env and hm = two_hybrid and w = 0
      and hs = "[0, 1]" and ?m1.0 = two_hybrid and ?v1.0 = 2 and ?m2.0 = ?m2 and ?v2.0 = 8
      and d = "''db''" and u = "''admin''" and ex = ?ex and m = two_manager and es = ?es
      and ?w1.0 = 2 and d' = "''db''" and u' = "''admin''" and ct = 5
      and ex' = "Exception ''Failed to connect to any endpoint: refused by b''"]
  from t g ma r n have "\<exists>reasons. length reasons = length [0::nat, 1] \<and>
      ?ex = Exception (''Failed to connect to any DSQL endpoint:'' @ [CHR 0x0A] @
         join [CHR 0x0A] (map2 error_msg (map (\<lambda>i. endpoints ?m2 ! i) (rank ?m2 [0, 1])) reasons))"
    by blast
  moreover have "fst (get_healthy_endpoints refusing_env two_hybrid 0) = [0, 1]"
    by (simp add: g)
  moreover have "fst (measure_all refusing_env two_hybrid [0, 1] 2) = None"
    by (simp add: fixture_defs hybrid_defs)
  ultimately show ?thesis
    using r s by (intro conjI)
qed

text \<open>
  The claim as first stated fails in \<open>DSQLConnectionManager\<close>: two endpoints
  fail with different reasons, the error names the second reason only.
\<close>

theorem last_error_only_counterexample:
  "fst (get_connection refusing_env two_manager ''db'' ''admin'' 5 0) =
     Inl (Exception ''Failed to connect to any endpoint: refused by b'') \<and>
   fst (attempt refusing_env two_manager ''db'' ''admin'' 5 (two_endpoints ! 0) 0) =
     Inl (Exception ''refused by a'')"
  by (simp add: fixture_defs simple_defs)

subsection \<open>Where the ranking latency comes from\<close>

lemma measure_latency_Inr_port:
  "fst (measure_latency E m e w) = Inr l \<Longrightarrow> \<exists>p. port e = Some p"
  by (auto simp: measure_latency_def split: option.splits)

lemma hybrid_rank_keys:
  assumes g: "get_healthy_endpoints E hm w = (hs, m1, w1)"
    and ma: "measure_all E m1 hs w1 = (None, m2, w2)"
  shows "\<forall>i\<in>set hs. \<exists>wi p. port (endpoints hm ! i) = Some p \<and>
           rank_key (endpoints m2 ! i) =
             (average (successes (probe_results E (hostname (endpoints hm ! i)) p
                 (latency_test_timeout hm) (nat (latency_test_retries hm)) wi)),
              priority_key (endpoints hm ! i))"
proof
  fix i assume i: "i \<in> set hs"
  from get_healthy_endpoints_frame [OF g]
  have m1: "m1 = hm\<lparr>health_check_cache := health_check_cache m1\<rparr>"
    and d: "distinct hs" and r: "\<forall>i\<in>set hs. i < length (endpoints hm)"
    by simp_all
  from m1 have e1: "endpoints m1 = endpoints hm"
    and t1: "latency_test_timeout m1 = latency_test_timeout hm"
    and r1: "latency_test_retries m1 = latency_test_retries hm"
    by (metis hybrid_manager.select_convs hybrid_manager.surjective hybrid_manager.update_convs(7))+
  from r e1 have r': "\<forall>i\<in>set hs. i < length (endpoints m1)" by simp
  from measure_all_fresh [OF ma d r'] i obtain wi l where
    ml: "fst (measure_latency E m1 (endpoints m1 ! i) wi) = Inr l"
    and l: "latency (endpoints m2 ! i) = Some l"
    by blast
  from measure_latency_Inr_port [OF ml] obtain p where p: "port (endpoints m1 ! i) = Some p"
    by blast
  from measure_latency_mean [OF p, of E m1 wi] ml
  have "l = average (successes (probe_results E (hostname (endpoints m1 ! i)) p
                 (latency_test_timeout m1) (nat (latency_test_retries m1)) wi))"
    by simp
  with l e1 t1 r1 have lk: "latency_key (endpoints m2 ! i) =
      average (successes (probe_results E (hostname (endpoints hm ! i)) p
                 (latency_test_timeout hm) (nat (latency_test_retries hm)) wi))"
    by (simp add: latency_key_def)
  from measure_all_frame [OF ma] r' i
  have "(endpoints m2 ! i)\<lparr>latency := latency (endpoints m1 ! i)\<rparr> = endpoints m1 ! i"
    by blast
  then have "priority (endpoints m2 ! i) = priority (endpoints m1 ! i)"
    by (metis endpoint.select_convs(5) endpoint.surjective endpoint.update_convs(7))
  then have pk: "priority_key (endpoints m2 ! i) = priority_key (endpoints hm ! i)"
    by (simp add: priority_key_def e1)
  from p e1 lk pk show "\<exists>wi p. port (endpoints hm ! i) = Some p \<and>
           rank_key (endpoints m2 ! i) =
             (average (successes (probe_results E (hostname (endpoints hm ! i)) p
                 (latency_test_timeout hm) (nat (latency_test_retries hm)) wi)),
              priority_key (endpoints hm ! i))"
    by (auto simp: rank_key_def)
qed

lemma simple_rank_keys:
  assumes "check_endpoints E es w = (es', w')"
  shows "\<forall>i<length es. \<exists>wi.
           latency_key (es' ! i) =
             fst (fst (measure_endpoint E (hostname (es ! i)) (endpoint_port (es ! i)) wi)) \<and>
           healthy_flag (es' ! i) =
             snd (fst (measure_endpoint E (hostname (es ! i)) (endpoint_port (es ! i)) wi))"
proof (intro allI impI)
  fix i assume "i < length es"
  from check_endpoints_nth [OF assms this] obtain wi where
    "es' ! i = (es ! i)\<lparr>latency := Some (fst (fst (measure_endpoint E (hostname (es ! i)) (endpoint_port (es ! i)) wi))),
                is_healthy := Some (snd (fst (measure_endpoint E (hostname (es ! i)) (endpoint_port (es ! i)) wi)))\<rparr>"
    by blast
  then show "\<exists>wi. latency_key (es' ! i) =
             fst (fst (measure_endpoint E (hostname (es ! i)) (endpoint_port (es ! i)) wi)) \<and>
           healthy_flag (es' ! i) =
             snd (fst (measure_endpoint E (hostname (es ! i)) (endpoint_port (es ! i)) wi))"
    by (auto simp: latency_key_def healthy_flag_def)
qed

lemma hybrid_ranking_source:
  assumes g: "get_healthy_endpoints E hm w = (hs, m1, w1)" and ne: "hs \<noteq> []"
    and p: "\<forall>i\<in>set hs. port (endpoints hm ! i) \<noteq> None"
  shows "\<exists>m2 w2 keys.
      endpoints m1 = endpoints hm \<and>
      measure_all E m1 hs w1 = (None, m2, w2) \<and>
      rank m2 hs = sort_key keys hs \<and>
      hybrid_get_connection E hm d u w =
        (case hybrid_try E m2 d u (map (\<lambda>i. endpoints m2 ! i) (sort_key keys hs)) [] w2 of
           (r, w3) \<Rightarrow> (r, m2, w3)) \<and>
      (\<forall>i\<in>set hs. \<exists>wi p. port (endpoints hm ! i) = Some p \<and>
           keys i =
             (average (successes (probe_results E (hostname (endpoints hm ! i)) p
                 (latency_test_timeout hm) (nat (latency_test_retries hm)) wi)),
              priority_key (endpoints hm ! i)))"
proof -
  from hybrid_measures_all [OF g p] obtain m2 w2 where
    ma: "measure_all E m1 hs w1 = (None, m2, w2)"
    by blast
  let ?keys = "\<lambda>i. rank_key (endpoints m2 ! i)"
  from get_healthy_endpoints_frame(1) [OF g]
  have e1: "endpoints m1 = endpoints hm"
    by (rule cache_update_frame(1))
  have r: "rank m2 hs = sort_key ?keys hs"
    by (simp add: rank_def)
  from g ne ma have c: "hybrid_get_connection E hm d u w =
        (case hybrid_try E m2 d u (map (\<lambda>i. endpoints m2 ! i) (sort_key ?keys hs)) [] w2 of
           (r, w3) \<Rightarrow> (r, m2, w3))"
    by (simp add: hybrid_get_connection_def rank_def)
  from hybrid_rank_keys [OF g ma] e1 ma r c show ?thesis
    by blast
qed

lemma simple_ranking_source:
  assumes c: "check_endpoints E (dm_endpoints m) w = (es, w1)"
  shows "get_connection E m d u ct w =
        (case try_endpoints E (m\<lparr>dm_endpoints := es\<rparr>) d u ct (target_endpoints es) None w1 of
           (r, w2) \<Rightarrow> (r, m\<lparr>dm_endpoints := es\<rparr>, w2))"
    and "filter healthy_flag es \<noteq> [] \<longrightarrow>
           target_endpoints es = sort_key latency_key (filter healthy_flag es)"
    and "length es = length (dm_endpoints m)"
    and "\<forall>i<length (dm_endpoints m). \<exists>wi.
           latency_key (es ! i) =
             fst (fst (measure_endpoint E (hostname (dm_endpoints m ! i))
                        (endpoint_port (dm_endpoints m ! i)) wi)) \<and>
           healthy_flag (es ! i) =
             snd (fst (measure_endpoint E (hostname (dm_endpoints m ! i))
                        (endpoint_port (dm_endpoints m ! i)) wi))"
proof -
  from c show "get_connection E m d u ct w =
        (case try_endpoints E (m\<lparr>dm_endpoints := es\<rparr>) d u ct (target_endpoints es) None w1 of
           (r, w2) \<Rightarrow> (r, m\<lparr>dm_endpoints := es\<rparr>, w2))"
    by (simp add: get_connection_def Let_def)
  show "filter healthy_flag es \<noteq> [] \<longrightarrow>
           target_endpoints es = sort_key latency_key (filter healthy_flag es)"
    by (simp add: target_endpoints_def)
  from check_endpoints_length [OF c] show "length es = length (dm_endpoints m)" .
  from simple_rank_keys [OF c] show "\<forall>i<length (dm_endpoints m). \<exists>wi.
           latency_key (es ! i) =
             fst (fst (measure_endpoint E (hostname (dm_endpoints m ! i))
                        (endpoint_port (dm_endpoints m ! i)) wi)) \<and>
           healthy_flag (es ! i) =
             snd (fst (measure_endpoint E (hostname (dm_endpoints m ! i))
                        (endpoint_port (dm_endpoints m ! i)) wi))" .
qed

text \<open>
  Claim C6, as amended. In the hybrid manager (some endpoint healthy, every healthy
  endpoint with a \<open>port\<close> key) health evaluation stores no latency, and
  \<open>get_connection\<close> is the attempt loop over the candidates sorted by a key that is,
  for every candidate, the pair of the multi-retry average \<open>measure_latency\<close>
  computed in this call (the mean over \<open>latency_test_retries\<close> probes) and the
  priority, 999 when missing. \<open>DSQLConnectionManager\<close> has no multi-retry mode:
  its \<open>get_connection\<close> is the attempt loop over the healthy endpoints sorted by the
  single probe of \<open>_measure_endpoint\<close>, the same probe that decides health.
\<close>

theorem ranking_latency_source:
  "(get_healthy_endpoints E hm w = (hs, m1, w1) \<and> hs \<noteq> [] \<and>
    (\<forall>i\<in>set hs. port (endpoints hm ! i) \<noteq> None) \<longrightarrow>
      (\<exists>m2 w2 keys.
         endpoints m1 = endpoints hm \<and>
         measure_all E m1 hs w1 = (None, m2, w2) \<and>
         rank m2 hs = sort_key keys hs \<and>
         hybrid_get_connection E hm d u w =
           (case hybrid_try E m2 d u (map (\<lambda>i. endpoints m2 ! i) (sort_key keys hs)) [] w2 of
              (r, w3) \<Rightarrow> (r, m2, w3)) \<and>
         (\<forall>i\<in>set hs. \<exists>wi p. port (endpoints hm ! i) = Some p \<and>
              keys i =
                (average (successes (probe_results E (hostname (endpoints hm ! i)) p
                    (latency_test_timeout hm) (nat (latency_test_retries hm)) wi)),
                 priority_key (endpoints hm ! i))))) \<and>
   (check_endpoints E (dm_endpoints m) v = (es, v1) \<longrightarrow>
      get_connection E m d' u' ct v =
        (case try_endpoints E (m\<lparr>dm_endpoints := es\<rparr>) d' u' ct (target_endpoints es) None v1 of
           (r, v2) \<Rightarrow> (r, m\<lparr>dm_endpoints := es\<rparr>, v2)) \<and>
      (filter healthy_flag es \<noteq> [] \<longrightarrow>
         target_endpoints es = sort_key latency_key (filter healthy_flag es)) \<and>
      length es = length (dm_endpoints m) \<and>
      (\<forall>i<length (dm_endpoints m). \<exists>wi.
           latency_key (es ! i) =
             fst (fst (measure_endpoint E (hostname (dm_endpoints m ! i))
                        (endpoint_port (dm_endpoints m ! i)) wi)) \<and>
           healthy_flag (es ! i) =
             snd (fst (measure_endpoint E (hostname (dm_endpoints m ! i))
                        (endpoint_port (dm_endpoints m ! i)) wi))))"
  using hybrid_ranking_source [of E hm w hs m1 w1 d u]
    simple_ranking_source(1) [of E m v es v1 d' u' ct]
    simple_ranking_source(2) [of E m v es v1]
    simple_ranking_source(3) [of E m v es v1]
    simple_ranking_source(4) [of E m v es v1]
  by blast

theorem ranking_latency_source_witness:
  "fst (get_healthy_endpoints warming_env two_hybrid 0) = [0, 1] \<and>
   port (endpoints two_hybrid ! 0) = Some 5432 \<and> port (endpoints two_hybrid ! 1) = Some 5432 \<and>
   (\<exists>m2 w2 keys.
      measure_all warming_env two_hybrid [0, 1] (13 / 5) = (None, m2, w2) \<and>
      rank m2 [0, 1] = sort_key keys [0, 1] \<and>
      (\<exists>wi p. port (endpoints two_hybrid ! 0) = Some p \<and>
         keys 0 =
           (average (successes (probe_results warming_env (hostname (endpoints two_hybrid ! 0)) p
               (latency_test_timeout two_hybrid) (nat (latency_test_retries two_hybrid)) wi)),
            priority_key (endpoints two_hybrid ! 0)))) \<and>
   map rank_key (endpoints (fst (snd (measure_all warming_env two_hybrid [0, 1] (13 / 5))))) =
     [(Fin (1 / 10), 2), (Fin 1, 1)] \<and>
   target_endpoints (fst (check_endpoints warming_env (dm_endpoints two_manager) 0)) =
     sort_key latency_key
       (filter healthy_flag (fst (check_endpoints warming_env (dm_endpoints two_manager) 0))) \<and>
   map latency_key (fst (check_endpoints warming_env (dm_endpoints two_manager) 0)) =
     [Fin 1600, Fin 1000]"
proof -
  let ?es = "fst (check_endpoints warming_env (dm_endpoints two_manager) 0)"
  have g: "get_healthy_endpoints warming_env two_hybrid 0 = ([0, 1], two_hybrid, 13 / 5)"
    by (simp add: fixture_defs hybrid_defs)
  have n: "[0::nat, 1] \<noteq> []"
    by simp
  have p0: "port (endpoints two_hybrid ! 0) = Some 5432"
    and p1: "port (endpoints two_hybrid ! 1) = Some 5432"
    by (simp_all add: fixture_defs)
  then have p: "\<forall>i\<in>set [0::nat, 1]. port (endpoints two_hybrid ! i) \<noteq> None"
    by simp
  have c: "check_endpoints warming_env (dm_endpoints two_manager) 0 = (?es, 13 / 5)"
    by (simp add: fixture_defs simple_defs)
  have h: "filter healthy_flag ?es \<noteq> []"
    by (simp add: fixture_defs simple_defs)
  have z: "(0::nat) \<in> set [0, 1]"
    by simp
  note t = ranking_latency_source [where E = warming_env and hm = two_hybrid and w = 0
      and hs = "[0, 1]" and ?m1.0 = two_hybrid and ?w1.0 = "13 / 5" and d = "''db''"
      and u = "''admin''" and m = two_manager and v = 0 and es = ?es and ?v1.0 = "13 / 5"
      and d' = "''db''" and u' = "''admin''" and ct = 5]
  from t g n p obtain m2 w2 keys where
    ma: "measure_all warming_env two_hybrid [0, 1] (13 / 5) = (None, m2, w2)"
    and rk: "rank m2 [0, 1] = sort_key keys [0, 1]"
    and ks: "\<forall>i\<in>set [0::nat, 1]. \<exists>wi p. port (endpoints two_hybrid ! i) = Some p \<and>
              keys i =
                (average (successes (probe_results warming_env (hostname (endpoints two_hybrid ! i)) p
                    (latency_test_timeout two_hybrid) (nat (latency_test_retries two_hybrid)) wi)),
                 priority_key (endpoints two_hybrid ! i))"
    by blast
  from ks z have "\<exists>wi p. port (endpoints two_hybrid ! 0) = Some p \<and>
         keys 0 =
           (average (successes (probe_results warming_env (hostname (endpoints two_hybrid ! 0)) p
               (latency_test_timeout two_hybrid) (nat (latency_test_retries two_hybrid)) wi)),
            priority_key (endpoints two_hybrid ! 0))"
    by blast
  with ma rk have 1: "\<exists>m2 w2 keys.
      measure_all warming_env two_hybrid [0, 1] (13 / 5) = (None, m2, w2) \<and>
      rank m2 [0, 1] = sort_key keys [0, 1] \<and>
      (\<exists>wi p. port (endpoints two_hybrid ! 0) = Some p \<and>
         keys 0 =
           (average (successes (probe_results warming_env (hostname (endpoints two_hybrid ! 0)) p
               (latency_test_timeout two_hybrid) (nat (latency_test_retries two_hybrid)) wi)),
            priority_key (endpoints two_hybrid ! 0)))"
    by blast
  from t c h have 2: "target_endpoints ?es = sort_key latency_key (filter healthy_flag ?es)"
    by blast
  have 3: "fst (get_healthy_endpoints warming_env two_hybrid 0) = [0, 1]"
    by (simp add: g)
  have 4: "map rank_key (endpoints (fst (snd (measure_all warming_env two_hybrid [0, 1] (13 / 5))))) =
     [(Fin (1 / 10), 2), (Fin 1, 1)]"
    by (simp add: fixture_defs hybrid_defs)
  have 5: "map latency_key ?es = [Fin 1600, Fin 1000]"
    by (simp add: fixture_defs simple_defs)
  from 1 2 3 4 5 p0 p1 show ?thesis
    by (intro conjI)
qed

text \<open>
  The claim as first stated fails in \<open>DSQLConnectionManager\<close>: the first probe of
  \<open>a\<close> is slow and later ones fast, so the single probe ranks \<open>b\<close> first although
  the three-probe average of \<open>a\<close> is the lower one (every connect completes within
  the timeout).
\<close>

theorem single_probe_ranking_counterexample:
  "(case get_connection warming_env two_manager ''db'' ''admin'' 5 0 of
      (Inr (Connection cp), m', w') \<Rightarrow>
        cp ''host'' = Some (VStr ''b'') \<and>
        map latency (dm_endpoints m') = [Some (Fin 1600), Some (Fin 1000)]
    | (Inl ex, m', w') \<Rightarrow> False) \<and>
   fst (measure_latency warming_env two_hybrid (two_endpoints ! 0) 0) = Inr (Fin (3 / 5)) \<and>
   fst (measure_latency warming_env two_hybrid (two_endpoints ! 1) 0) = Inr (Fin 1)"
  by (simp add: fixture_defs simple_defs measure_latency_def numeral_3_eq_3 average_def)

subsection \<open>The endpoint fields a call writes\<close>

lemma simple_fields_written:
  assumes "get_connection E m d u ct w = (r, m', w')"
  shows "length (dm_endpoints m') = length (dm_endpoints m)"
    and "\<forall>i<length (dm_endpoints m). \<exists>wi.
           dm_endpoints m' ! i =
             (dm_endpoints m ! i)
               \<lparr>latency := Some (fst (fst (measure_endpoint E (hostname (dm_endpoints m ! i))
                                        (endpoint_port (dm_endpoints m ! i)) wi))),
                is_healthy := Some (snd (fst (measure_endpoint E (hostname (dm_endpoints m ! i))
                                        (endpoint_port (dm_endpoints m ! i)) wi)))\<rparr>"
proof -
  obtain es w1 where c: "check_endpoints E (dm_endpoints m) w = (es, w1)"
    by (metis prod.exhaust)
  with assms have m': "dm_endpoints m' = es"
    by (auto simp: get_connection_def Let_def split: prod.splits)
  from check_endpoints_length [OF c] m' show "length (dm_endpoints m') = length (dm_endpoints m)"
    by simp
  from check_endpoints_nth [OF c] m' show "\<forall>i<length (dm_endpoints m). \<exists>wi.
           dm_endpoints m' ! i =
             (dm_endpoints m ! i)
               \<lparr>latency := Some (fst (fst (measure_endpoint E (hostname (dm_endpoints m ! i))
                                        (endpoint_port (dm_endpoints m ! i)) wi))),
                is_healthy := Some (snd (fst (measure_endpoint E (hostname (dm_endpoints m ! i))
                                        (endpoint_port (dm_endpoints m ! i)) wi)))\<rparr>"
    by simp
qed

lemma hybrid_fields_written:
  assumes "hybrid_get_connection E hm d u w = (r, hm', w')"
  shows "length (endpoints hm') = length (endpoints hm)"
    and "\<forall>i<length (endpoints hm).
           (endpoints hm' ! i)\<lparr>latency := latency (endpoints hm ! i)\<rparr> = endpoints hm ! i \<and>
           (i \<notin> set (fst (get_healthy_endpoints E hm w)) \<longrightarrow> endpoints hm' ! i = endpoints hm ! i)"
proof -
  obtain hs m1 w1 where g: "get_healthy_endpoints E hm w = (hs, m1, w1)"
    by (metis prod_cases3)
  from get_healthy_endpoints_frame(1) [OF g] have e1: "endpoints m1 = endpoints hm"
    by (metis hybrid_manager.select_convs(1) hybrid_manager.surjective hybrid_manager.update_convs(7))
  obtain x m2 w2 where ma: "measure_all E m1 hs w1 = (x, m2, w2)"
    by (metis prod_cases3)
  note fr = measure_all_frame [OF ma]
  have "hm' = m1 \<or> hm' = m2"
    using assms g ma
    by (auto simp: hybrid_get_connection_def split: if_splits option.splits prod.splits)
  moreover have "hs = [] \<Longrightarrow> hm' = m1"
    using assms g by (simp add: hybrid_get_connection_def)
  ultimately have cases: "hm' = m1 \<or> (hs \<noteq> [] \<and> hm' = m2)"
    by blast
  from cases fr e1 show "length (endpoints hm') = length (endpoints hm)"
    by auto
  from cases fr e1 g show "\<forall>i<length (endpoints hm).
           (endpoints hm' ! i)\<lparr>latency := latency (endpoints hm ! i)\<rparr> = endpoints hm ! i \<and>
           (i \<notin> set (fst (get_healthy_endpoints E hm w)) \<longrightarrow> endpoints hm' ! i = endpoints hm ! i)"
    by auto
qed

lemma hybrid_latency_written:
  assumes c: "hybrid_get_connection E hm d u w = (r, hm', w')"
    and p: "\<forall>i\<in>set (fst (get_healthy_endpoints E hm w)). port (endpoints hm ! i) \<noteq> None"
  shows "\<forall>i\<in>set (fst (get_healthy_endpoints E hm w)). \<exists>wi l.
           fst (measure_latency E hm (endpoints hm ! i) wi) = Inr l \<and>
           latency (endpoints hm' ! i) = Some l"
proof (cases "fst (get_healthy_endpoints E hm w) = []")
  case True
  then show ?thesis by simp
next
  case False
  obtain hs m1 v1 where g: "get_healthy_endpoints E hm w = (hs, m1, v1)"
    by (metis prod_cases3)
  with False p have ne: "hs \<noteq> []" and p': "\<forall>i\<in>set hs. port (endpoints hm ! i) \<noteq> None"
    by simp_all
  from hybrid_measures_all [OF g p'] obtain m2 v2 where
    ma: "measure_all E m1 hs v1 = (None, m2, v2)"
    by blast
  from c g ne ma have hm': "hm' = m2"
    by (auto simp: hybrid_get_connection_def split: prod.splits)
  from get_healthy_endpoints_frame [OF g]
  have m1: "m1 = hm\<lparr>health_check_cache := health_check_cache m1\<rparr>"
    and dist: "distinct hs" and r: "\<forall>i\<in>set hs. i < length (endpoints hm)"
    by simp_all
  note fr = cache_update_frame [OF m1]
  from r fr(1) have r': "\<forall>i\<in>set hs. i < length (endpoints m1)"
    by simp
  have "\<forall>i\<in>set hs. \<exists>wi l. fst (measure_latency E hm (endpoints hm ! i) wi) = Inr l \<and>
           latency (endpoints hm' ! i) = Some l"
  proof
    fix i assume "i \<in> set hs"
    with measure_all_fresh [OF ma dist r'] obtain wi l where
      "fst (measure_latency E m1 (endpoints m1 ! i) wi) = Inr l"
      and l: "latency (endpoints m2 ! i) = Some l"
      by blast
    moreover have "measure_latency E m1 (endpoints m1 ! i) wi =
        measure_latency E hm (endpoints hm ! i) wi"
      using fr by (intro measure_latency_cong) simp_all
    ultimately show "\<exists>wi l. fst (measure_latency E hm (endpoints hm ! i) wi) = Inr l \<and>
           latency (endpoints hm' ! i) = Some l"
      using hm' by auto
  qed
  with g show ?thesis by simp
qed

text \<open>
  Claim C9, as amended. \<open>DSQLConnectionManager.get_connection\<close> writes a fresh
  \<open>latency\<close> and a fresh \<open>is_healthy\<close>, both from one \<open>_measure_endpoint\<close> call,
  into every endpoint and changes no other field. The hybrid manager never writes
  \<open>is_healthy\<close> and changes no field but \<open>latency\<close>, and that only on endpoints it
  evaluated healthy; when each of those has a \<open>port\<close> key, it writes on every one of
  them a latency that \<open>measure_latency\<close> returned for it in this call.
\<close>

theorem endpoint_fields_written:
  "(get_connection E m d u ct w = (r, m', w') \<longrightarrow>
      length (dm_endpoints m') = length (dm_endpoints m) \<and>
      (\<forall>i<length (dm_endpoints m). \<exists>wi.
           dm_endpoints m' ! i =
             (dm_endpoints m ! i)
               \<lparr>latency := Some (fst (fst (measure_endpoint E (hostname (dm_endpoints m ! i))
                                        (endpoint_port (dm_endpoints m ! i)) wi))),
                is_healthy := Some (snd (fst (measure_endpoint E (hostname (dm_endpoints m ! i))
                                        (endpoint_port (dm_endpoints m ! i)) wi)))\<rparr>)) \<and>
   (hybrid_get_connection E hm d' u' w = (r', hm', w'') \<longrightarrow>
      length (endpoints hm') = length (endpoints hm) \<and>
      (\<forall>i<length (endpoints hm).
           (endpoints hm' ! i)\<lparr>latency := latency (endpoints hm ! i)\<rparr> = endpoints hm ! i \<and>
           (i \<notin> set (fst (get_healthy_endpoints E hm w)) \<longrightarrow> endpoints hm' ! i = endpoints hm ! i)) \<and>
      ((\<forall>i\<in>set (fst (get_healthy_endpoints E hm w)). port (endpoints hm ! i) \<noteq> None) \<longrightarrow>
         (\<forall>i\<in>set (fst (get_healthy_endpoints E hm w)). \<exists>wi l.
            fst (measure_latency E hm (endpoints hm ! i) wi) = Inr l \<and>
            latency (endpoints hm' ! i) = Some l)))"
  using simple_fields_written [of E m d u ct w r m' w']
    hybrid_fields_written [of E hm d' u' w r' hm' w'']
    hybrid_latency_written [of E hm d' u' w r' hm' w'']
  by blast

theorem endpoint_fields_written_witness:
  "map latency (dm_endpoints (fst (snd (get_connection half_env two_manager ''db'' ''admin'' 5 0)))) =
     [Some (Fin 1000), Some Inf] \<and>
   map is_healthy (dm_endpoints (fst (snd (get_connection half_env two_manager ''db'' ''admin'' 5 0)))) =
     [Some True, Some False] \<and>
   length (dm_endpoints (fst (snd (get_connection half_env two_manager ''db'' ''admin'' 5 0)))) =
     length (dm_endpoints two_manager) \<and>
   length (endpoints (fst (snd (hybrid_get_connection half_env two_hybrid ''db'' ''admin'' 0)))) =
     length (endpoints two_hybrid) \<and>
   endpoints (fst (snd (hybrid_get_connection half_env two_hybrid ''db'' ''admin'' 0))) ! 1 =
     endpoints two_hybrid ! 1 \<and>
   fst (get_healthy_endpoints half_env two_hybrid 0) = [0] \<and>
   port (endpoints two_hybrid ! 0) = Some 5432 \<and>
   (\<exists>wi l. fst (measure_latency half_env two_hybrid (endpoints two_hybrid ! 0) wi) = Inr l \<and>
      latency (endpoints (fst (snd (hybrid_get_connection half_env two_hybrid ''db'' ''admin'' 0))) ! 0) =
        Some l) \<and>
   map latency (endpoints (fst (snd (hybrid_get_connection half_env two_hybrid ''db'' ''admin'' 0)))) =
     [Some (Fin 1), None]"
proof -
  let ?s = "get_connection half_env two_manager ''db'' ''admin'' 5 0"
  let ?h = "hybrid_get_connection half_env two_hybrid ''db'' ''admin'' 0"
  obtain r m' w' where s: "?s = (r, m', w')"
    by (metis prod_cases3)
  obtain r' hm' w'' where h: "?h = (r', hm', w'')"
    by (metis prod_cases3)
  have hs: "fst (get_healthy_endpoints half_env two_hybrid 0) = [0]"
    by (simp add: fixture_defs hybrid_defs)
  have l: "(1::nat) < length (endpoints two_hybrid)"
    by (simp add: fixture_defs)
  have p: "port (endpoints two_hybrid ! 0) = Some 5432"
    by (simp add: fixture_defs)
  with hs have p': "\<forall>i\<in>set (fst (get_healthy_endpoints half_env two_hybrid 0)).
      port (endpoints two_hybrid ! i) \<noteq> None"
    by simp
  note t = endpoint_fields_written [where E = half_env and m = two_manager and d = "''db''"
      and u = "''admin''" and ct = 5 and w = 0 and r = r and m' = m'
      and w' = w' and hm = two_hybrid and d' = "''db''" and u' = "''admin''"
      and r' = r' and hm' = hm' and w'' = w'']
  from t s h have 1: "length (dm_endpoints m') = length (dm_endpoints two_manager)"
    and 2: "length (endpoints hm') = length (endpoints two_hybrid)"
    and 3: "\<forall>i<length (endpoints two_hybrid).
           i \<notin> set (fst (get_healthy_endpoints half_env two_hybrid 0)) \<longrightarrow>
             endpoints hm' ! i = endpoints two_hybrid ! i"
    by blast+
  from 3 l hs have 4: "endpoints hm' ! 1 = endpoints two_hybrid ! 1"
    by simp
  from t h p' have "\<forall>i\<in>set (fst (get_healthy_endpoints half_env two_hybrid 0)). \<exists>wi l.
            fst (measure_latency half_env two_hybrid (endpoints two_hybrid ! i) wi) = Inr l \<and>
            latency (endpoints hm' ! i) = Some l"
    by blast
  with hs have 7: "\<exists>wi l. fst (measure_latency half_env two_hybrid (endpoints two_hybrid ! 0) wi) = Inr l \<and>
      latency (endpoints hm' ! 0) = Some l"
    by simp
  have 5: "map latency (dm_endpoints (fst (snd ?s))) = [Some (Fin 1000), Some Inf]"
    by (simp add: fixture_defs simple_defs)
  have 6: "map is_healthy (dm_endpoints (fst (snd ?s))) = [Some True, Some False]"
    by (simp add: fixture_defs simple_defs)
  have 8: "map latency (endpoints (fst (snd ?h))) = [Some (Fin 1), None]"
    by (simp add: fixture_defs hybrid_defs)
  from s have sm: "fst (snd ?s) = m'" by simp
  from h have hm: "fst (snd ?h) = hm'" by simp
  from 1 2 4 5 6 7 8 hs p show ?thesis
    unfolding sm hm by (intro conjI)
qed

text \<open>
  The claim as first stated fails in the hybrid manager: after a successful call
  \<open>is_healthy\<close> is still absent on both endpoints, and the unhealthy endpoint has
  no \<open>latency\<close>.
\<close>

theorem hybrid_fields_counterexample:
  "(case hybrid_get_connection half_env two_hybrid ''db'' ''admin'' 0 of
      (r, m', w') \<Rightarrow>
        map is_healthy (endpoints m') = [None, None] \<and>
        map latency (endpoints m') = [Some (Fin 1), None])"
  by (simp add: fixture_defs hybrid_defs)

subsection \<open>The parameters of the connection returned\<close>

lemma add_settings_map_add:
  "cp ''connect_timeout'' \<noteq> None \<Longrightarrow> add_settings kvs cp = map_of kvs ++ cp"
proof (induction kvs arbitrary: cp)
  case Nil
  then show ?case by simp
next
  case (Cons kv kvs)
  obtain k v where kv: "kv = (k, v)" by (cases kv)
  let ?cp = "if cp k = None \<and> k \<noteq> ''connect_timeout'' then cp(k \<mapsto> v) else cp"
  from Cons.prems have "?cp ''connect_timeout'' \<noteq> None" by simp
  with Cons.IH [of ?cp] have "add_settings kvs ?cp = map_of kvs ++ ?cp"
    by blast
  moreover have "map_of kvs ++ ?cp = map_of ((k, v) # kvs) ++ cp"
    using Cons.prems by (auto simp: map_add_def fun_eq_iff split: option.splits)
  ultimately have "add_settings ((k, v) # kvs) cp = map_of ((k, v) # kvs) ++ cp"
    by (simp only: add_settings.simps)
  then show ?case by (simp only: kv)
qed

lemma attempt_params:
  "attempt E m d u ct e w = (Inr (Connection cp), w') \<Longrightarrow>
     \<exists>token. cp = map_of (dm_connection_settings m) ++ core_params e d u token ct"
  by (auto simp: attempt_def Let_def add_settings_map_add core_params_def
      split: prod.splits sum.splits option.splits)

lemma hybrid_conn_params_map_add:
  "distinct (map fst (connection_settings m)) \<Longrightarrow>
     hybrid_conn_params m e p d u t = hybrid_core_params e p d u t ++ map_of (connection_settings m)"
proof -
  assume dist: "distinct (map fst (connection_settings m))"
  have "map_of (rev (connection_settings m)) = map_of (connection_settings m)"
  proof
    fix k
    show "map_of (rev (connection_settings m)) k = map_of (connection_settings m) k"
    proof (cases "map_of (connection_settings m) k")
      case None
      then have "k \<notin> fst ` set (connection_settings m)"
        by (simp add: map_of_eq_None_iff)
      then have "map_of (rev (connection_settings m)) k = None"
        by (simp add: map_of_eq_None_iff)
      with None show ?thesis by simp
    next
      case (Some v)
      then have "(k, v) \<in> set (rev (connection_settings m))"
        by (auto dest: map_of_SomeD)
      moreover from dist have "distinct (map fst (rev (connection_settings m)))"
        by (simp add: rev_map [symmetric])
      ultimately show ?thesis using Some by simp
    qed
  qed
  then show ?thesis
    by (simp add: hybrid_conn_params_def dict_update_map_add)
qed

lemma hybrid_attempt_params:
  "hybrid_attempt E m d u e w = (Inr (Connection cp), w') \<Longrightarrow>
     \<exists>p token. port e = Some p \<and> cp = hybrid_conn_params m e p d u token"
  by (auto simp: hybrid_attempt_def Let_def split: prod.splits sum.splits option.splits)

lemma set_target_endpoints: "set (target_endpoints es) \<subseteq> set es"
  by (auto simp: target_endpoints_def Let_def)

lemma simple_connection_params:
  assumes "get_connection E m d u ct w = (Inr (Connection cp), m', w')"
  shows "\<exists>e\<in>set (dm_endpoints m'). \<exists>token.
           cp = map_of (dm_connection_settings m) ++ core_params e d u token ct"
proof -
  obtain es w1 where c: "check_endpoints E (dm_endpoints m) w = (es, w1)"
    by (metis prod.exhaust)
  let ?m = "m\<lparr>dm_endpoints := es\<rparr>"
  from assms c have m': "m' = ?m"
    and t: "try_endpoints E ?m d u ct (target_endpoints es) None w1 = (Inr (Connection cp), w')"
    by (auto simp: get_connection_def Let_def split: prod.splits)
  from try_endpoints_Inr [OF t] obtain k wk where k: "k < length (target_endpoints es)"
    and a: "attempt E ?m d u ct (target_endpoints es ! k) wk = (Inr (Connection cp), w')"
    by blast
  from attempt_params [OF a] obtain token where
    "cp = map_of (dm_connection_settings m) ++ core_params (target_endpoints es ! k) d u token ct"
    by auto
  moreover from k have "target_endpoints es ! k \<in> set (target_endpoints es)"
    by simp
  then have "target_endpoints es ! k \<in> set es"
    using set_target_endpoints [of es] by blast
  ultimately show ?thesis
    using m' by auto
qed

lemma hybrid_connection_params:
  assumes "hybrid_get_connection E hm d u w = (Inr (Connection cp), hm', w')"
    and "distinct (map fst (connection_settings hm))"
  shows "\<exists>e\<in>set (endpoints hm'). \<exists>p token. port e = Some p \<and>
           cp = hybrid_core_params e p d u token ++ map_of (connection_settings hm)"
proof -
  obtain hs m1 w1 where g: "get_healthy_endpoints E hm w = (hs, m1, w1)"
    by (metis prod_cases3)
  obtain x m2 w2 where ma: "measure_all E m1 hs w1 = (x, m2, w2)"
    by (metis prod_cases3)
  let ?ranked = "map (\<lambda>i. endpoints m2 ! i) (rank m2 hs)"
  from assms(1) g ma have ne: "hs \<noteq> []" and x: "x = None" and hm': "hm' = m2"
    and t: "hybrid_try E m2 d u ?ranked [] w2 = (Inr (Connection cp), w')"
    by (auto simp: hybrid_get_connection_def split: if_splits option.splits prod.splits)
  from get_healthy_endpoints_frame [OF g]
  have m1: "m1 = hm\<lparr>health_check_cache := health_check_cache m1\<rparr>"
    and r: "\<forall>i\<in>set hs. i < length (endpoints hm)"
    by simp_all
  from measure_all_frame [OF ma] have m2: "m2 = m1\<lparr>endpoints := endpoints m2\<rparr>"
    and len: "length (endpoints m2) = length (endpoints m1)"
    by simp_all
  have cs: "connection_settings m2 = connection_settings hm"
    using cache_update_frame(2) [OF m1] endpoints_update_frame(1) [OF m2] by simp
  have l2: "length (endpoints m2) = length (endpoints hm)"
    using len cache_update_frame(1) [OF m1] by simp
  from hybrid_try_Inr [OF t] obtain k wk where k: "k < length ?ranked"
    and a: "hybrid_attempt E m2 d u (?ranked ! k) wk = (Inr (Connection cp), w')"
    by blast
  from k have "rank m2 hs ! k \<in> set (rank m2 hs)"
    by simp
  then have "rank m2 hs ! k \<in> set hs"
    by (simp add: rank_def)
  with r l2 have "rank m2 hs ! k < length (endpoints m2)"
    by simp
  with k have mem: "?ranked ! k \<in> set (endpoints m2)"
    by simp
  from hybrid_attempt_params [OF a] obtain p token where
    "port (?ranked ! k) = Some p" and "cp = hybrid_conn_params m2 (?ranked ! k) p d u token"
    by blast
  with assms(2) cs have "port (?ranked ! k) = Some p \<and>
      cp = hybrid_core_params (?ranked ! k) p d u token ++ map_of (connection_settings hm)"
    by (simp add: hybrid_conn_params_map_add)
  with mem hm' show ?thesis by blast
qed


text \<open>
  Claim C10. The two managers merge the configured settings with opposite
  precedence. A connection returned by the hybrid \<open>get_connection\<close> was opened, for
  one of the endpoints, with the router-computed parameters overridden by
  \<open>connection_settings\<close> (a dictionary: its keys are distinct): every configured key
  carries the configured value, also \<open>host\<close>, \<open>password\<close> or an SSL setting. A
  connection returned by \<open>DSQLConnectionManager.get_connection\<close> was opened with the
  settings overridden by the router-computed parameters: each of the seven core
  keys carries the core value, whatever the settings hold.
\<close>

theorem settings_precedence:
  "(hybrid_get_connection E hm d u w = (Inr (Connection cp), hm', w') \<and>
    distinct (map fst (connection_settings hm)) \<longrightarrow>
      (\<exists>e\<in>set (endpoints hm'). \<exists>p token. port e = Some p \<and>
         cp = hybrid_core_params e p d u token ++ map_of (connection_settings hm) \<and>
         (\<forall>k v. (k, v) \<in> set (connection_settings hm) \<longrightarrow> cp k = Some v))) \<and>
   (get_connection E m d' u' ct v = (Inr (Connection cp'), m', v') \<longrightarrow>
      (\<exists>e\<in>set (dm_endpoints m'). \<exists>token.
         cp' = map_of (dm_connection_settings m) ++ core_params e d' u' token ct \<and>
         (\<forall>k\<in>{''host'', ''port'', ''database'', ''user'', ''password'', ''connect_timeout'',
               ''sslmode''}. cp' k = core_params e d' u' token ct k)))"
proof (rule conjI; rule impI)
  assume a: "hybrid_get_connection E hm d u w = (Inr (Connection cp), hm', w') \<and>
    distinct (map fst (connection_settings hm))"
  then have dist: "distinct (map fst (connection_settings hm))" by simp
  from a hybrid_connection_params [of E hm d u w cp hm' w'] obtain e p token where
    e: "e \<in> set (endpoints hm')" "port e = Some p"
    and cp: "cp = hybrid_core_params e p d u token ++ map_of (connection_settings hm)"
    by blast
  have "\<forall>k v. (k, v) \<in> set (connection_settings hm) \<longrightarrow> cp k = Some v"
    using dist by (simp add: cp map_add_def)
  with e cp show "\<exists>e\<in>set (endpoints hm'). \<exists>p token. port e = Some p \<and>
         cp = hybrid_core_params e p d u token ++ map_of (connection_settings hm) \<and>
         (\<forall>k v. (k, v) \<in> set (connection_settings hm) \<longrightarrow> cp k = Some v)"
    by blast
next
  assume "get_connection E m d' u' ct v = (Inr (Connection cp'), m', v')"
  from simple_connection_params [OF this] obtain e token where
    e: "e \<in> set (dm_endpoints m')"
    and cp: "cp' = map_of (dm_connection_settings m) ++ core_params e d' u' token ct"
    by blast
  have "\<forall>k\<in>{''host'', ''port'', ''database'', ''user'', ''password'', ''connect_timeout'',
               ''sslmode''}. cp' k = core_params e d' u' token ct k"
  proof
    fix k
    assume "k \<in> {''host'', ''port'', ''database'', ''user'', ''password'', ''connect_timeout'',
               ''sslmode''}"
    then have "k \<in> dom (core_params e d' u' token ct)"
      by (simp only: core_params_dom)
    then show "cp' k = core_params e d' u' token ct k"
      by (auto simp: cp map_add_def)
  qed
  with e cp show "\<exists>e\<in>set (dm_endpoints m'). \<exists>token.
         cp' = map_of (dm_connection_settings m) ++ core_params e d' u' token ct \<and>
         (\<forall>k\<in>{''host'', ''port'', ''database'', ''user'', ''password'', ''connect_timeout'',
               ''sslmode''}. cp' k = core_params e d' u' token ct k)"
    by blast
qed

theorem settings_precedence_witness:
  "distinct (map fst (connection_settings override_hybrid)) \<and>
   (case fst (hybrid_get_connection open_env override_hybrid ''db'' ''admin'' 0) of
      Inr (Connection cp) \<Rightarrow>
        cp ''host'' = Some (VStr ''elsewhere'') \<and> cp ''sslmode'' = Some (VStr ''disable'')
    | Inl ex \<Rightarrow> False) \<and>
   (case fst (get_connection open_env override_manager ''db'' ''admin'' 5 0) of
      Inr (Connection cp) \<Rightarrow>
        cp ''host'' = Some (VStr ''a'') \<and> cp ''sslmode'' = Some (VStr ''require'')
    | Inl ex \<Rightarrow> False)"
proof -
  let ?h = "hybrid_get_connection open_env override_hybrid ''db'' ''admin'' 0"
  let ?s = "get_connection open_env override_manager ''db'' ''admin'' 5 0"
  have dist: "distinct (map fst (connection_settings override_hybrid))"
    by (simp add: override_hybrid_def override_settings_def fixture_defs)
  obtain r hm' w' where h0: "?h = (r, hm', w')"
    by (metis prod_cases3)
  have "\<exists>cp. fst ?h = Inr (Connection cp)"
    by (simp add: override_hybrid_def override_settings_def fixture_defs hybrid_defs)
  with h0 obtain cp where h: "?h = (Inr (Connection cp), hm', w')"
    by auto
  obtain r' m' v' where s0: "?s = (r', m', v')"
    by (metis prod_cases3)
  have "\<exists>cp. fst ?s = Inr (Connection cp)"
    by (simp add: override_manager_def override_settings_def fixture_defs simple_defs)
  with s0 obtain cp' where s: "?s = (Inr (Connection cp'), m', v')"
    by auto
  have es: "dm_endpoints (fst (snd ?s)) = [(mk_endpoint ''a'' None None)
      \<lparr>latency := Some (Fin 1000), is_healthy := Some True\<rparr>]"
    by (simp add: override_manager_def override_settings_def fixture_defs simple_defs)
  with s have es': "dm_endpoints m' = [(mk_endpoint ''a'' None None)
      \<lparr>latency := Some (Fin 1000), is_healthy := Some True\<rparr>]"
    by simp
  note t = settings_precedence [where E = open_env and hm = override_hybrid and d = "''db''"
      and u = "''admin''" and w = 0 and cp = cp and hm' = hm' and w' = w'
      and m = override_manager and d' = "''db''" and u' = "''admin''" and ct = 5 and v = 0
      and cp' = cp' and m' = m' and v' = v']
  have in1: "(''host'', VStr ''elsewhere'') \<in> set (connection_settings override_hybrid)"
    and in2: "(''sslmode'', VStr ''disable'') \<in> set (connection_settings override_hybrid)"
    by (simp_all add: override_hybrid_def override_settings_def fixture_defs)
  from t h dist have "\<forall>k v. (k, v) \<in> set (connection_settings override_hybrid) \<longrightarrow> cp k = Some v"
    by blast
  with in1 in2 have 1: "cp ''host'' = Some (VStr ''elsewhere'')"
    and 2: "cp ''sslmode'' = Some (VStr ''disable'')"
    by blast+
  from t s obtain e token where e: "e \<in> set (dm_endpoints m')"
    and c: "\<forall>k\<in>{''host'', ''port'', ''database'', ''user'', ''password'', ''connect_timeout'',
               ''sslmode''}. cp' k = core_params e ''db'' ''admin'' token 5 k"
    by blast
  from c have "cp' ''host'' = core_params e ''db'' ''admin'' token 5 ''host''"
    and "cp' ''sslmode'' = core_params e ''db'' ''admin'' token 5 ''sslmode''"
    by simp_all
  with e es' have 3: "cp' ''host'' = Some (VStr ''a'')"
    and 4: "cp' ''sslmode'' = Some (VStr ''require'')"
    by (simp_all add: core_params_def mk_endpoint_def)
  from h 1 2 s 3 4 dist show ?thesis
    by simp
qed

end
